theory Spec2Isabelle
  imports Complex_Main "HOL-Library.Monad_Syntax"
begin

section \<open>Dense two-dimensional tensors\<close>

text \<open>
  The program computes with dense 2-D torch tensors of 64-bit floats. A tensor is modelled
  by its shape and its entries; arithmetic is the exact arithmetic of the reals, so rounding,
  overflow and NaN are outside the model. An operation that torch rejects because the
  shapes do not fit (a RuntimeError) returns \<open>None\<close>.
\<close>

record tensor =
  nrows :: nat
  ncols :: nat
  entry :: "nat \<Rightarrow> nat \<Rightarrow> real"

text \<open>Broadcasting of one dimension: sizes fit when they are equal or one of them is 1.\<close>

definition bdim :: "nat \<Rightarrow> nat \<Rightarrow> nat option" where
  "bdim a b = (if a = b \<or> b = 1 then Some a else if a = 1 then Some b else None)"

definition bidx :: "nat \<Rightarrow> nat \<Rightarrow> nat" where
  "bidx n i = (if n = 1 then 0 else i)"

text \<open>An elementwise binary operator with broadcasting (\<open>A * B\<close>, \<open>A + B\<close>, \<open>A - B\<close>).\<close>

definition t_binop :: "(real \<Rightarrow> real \<Rightarrow> real) \<Rightarrow> tensor \<Rightarrow> tensor \<Rightarrow> tensor option" where
  "t_binop f A B =
     do { r \<leftarrow> bdim (nrows A) (nrows B);
          c \<leftarrow> bdim (ncols A) (ncols B);
          Some \<lparr>nrows = r, ncols = c,
                entry = (\<lambda>i j. f (entry A (bidx (nrows A) i) (bidx (ncols A) j))
                                  (entry B (bidx (nrows B) i) (bidx (ncols B) j)))\<rparr> }"

definition t_mul :: "tensor \<Rightarrow> tensor \<Rightarrow> tensor option" where
  "t_mul = t_binop (\<lambda>x y. x * y)"

definition t_add :: "tensor \<Rightarrow> tensor \<Rightarrow> tensor option" where
  "t_add = t_binop (\<lambda>x y. x + y)"

definition t_sub :: "tensor \<Rightarrow> tensor \<Rightarrow> tensor option" where
  "t_sub = t_binop (\<lambda>x y. x - y)"

text \<open>\<open>torch.mm\<close>: the inner dimensions must agree.\<close>

definition t_mm :: "tensor \<Rightarrow> tensor \<Rightarrow> tensor option" where
  "t_mm A B =
     (if ncols A = nrows B
      then Some \<lparr>nrows = nrows A, ncols = ncols B,
                 entry = (\<lambda>i j. \<Sum>n<ncols A. entry A i n * entry B n j)\<rparr>
      else None)"

text \<open>\<open>A.t()\<close>, an elementwise map, \<open>A.pow(2)\<close>, \<open>A * c\<close> for a scalar \<open>c\<close>, \<open>A.sum()\<close>.\<close>

definition t_T :: "tensor \<Rightarrow> tensor" where
  "t_T A = \<lparr>nrows = ncols A, ncols = nrows A, entry = (\<lambda>i j. entry A j i)\<rparr>"

definition t_map :: "(real \<Rightarrow> real) \<Rightarrow> tensor \<Rightarrow> tensor" where
  "t_map f A = \<lparr>nrows = nrows A, ncols = ncols A, entry = (\<lambda>i j. f (entry A i j))\<rparr>"

definition t_pow2 :: "tensor \<Rightarrow> tensor" where
  "t_pow2 A = t_map (\<lambda>x. x ^ 2) A"

definition t_scale :: "tensor \<Rightarrow> real \<Rightarrow> tensor" where
  "t_scale A c = t_map (\<lambda>x. x * c) A"

definition t_sum :: "tensor \<Rightarrow> real" where
  "t_sum A = (\<Sum>i<nrows A. \<Sum>j<ncols A. entry A i j)"

text \<open>\<open>torch.zeros(r, c)\<close>, \<open>torch.ones(r, c)\<close>.\<close>

definition t_zeros :: "nat \<Rightarrow> nat \<Rightarrow> tensor" where
  "t_zeros r c = \<lparr>nrows = r, ncols = c, entry = (\<lambda>i j. 0)\<rparr>"

definition t_ones :: "nat \<Rightarrow> nat \<Rightarrow> tensor" where
  "t_ones r c = \<lparr>nrows = r, ncols = c, entry = (\<lambda>i j. 1)\<rparr>"

text \<open>\<open>torch.cat([A, B], dim=1)\<close>: the row counts must agree.\<close>

definition t_cat1 :: "tensor \<Rightarrow> tensor \<Rightarrow> tensor option" where
  "t_cat1 A B =
     (if nrows A = nrows B
      then Some \<lparr>nrows = nrows A, ncols = ncols A + ncols B,
                 entry = (\<lambda>i j. if j < ncols A then entry A i j else entry B i (j - ncols A))\<rparr>
      else None)"

text \<open>Slices \<open>A[lo:hi, :]\<close> and \<open>A[:, lo:hi]\<close>; a slice is clipped to the tensor, as in Python.\<close>

definition t_rows :: "tensor \<Rightarrow> nat \<Rightarrow> nat \<Rightarrow> tensor" where
  "t_rows A lo hi = \<lparr>nrows = min hi (nrows A) - lo, ncols = ncols A,
                      entry = (\<lambda>i j. entry A (lo + i) j)\<rparr>"

definition t_cols :: "tensor \<Rightarrow> nat \<Rightarrow> nat \<Rightarrow> tensor" where
  "t_cols A lo hi = \<lparr>nrows = nrows A, ncols = min hi (ncols A) - lo,
                      entry = (\<lambda>i j. entry A i (lo + j))\<rparr>"

text \<open>\<open>A.reshape(1, -1)\<close>: the entries in row-major order, as one row.\<close>

definition t_reshape_row :: "tensor \<Rightarrow> tensor" where
  "t_reshape_row A = \<lparr>nrows = 1, ncols = nrows A * ncols A,
                       entry = (\<lambda>i j. entry A (j div ncols A) (j mod ncols A))\<rparr>"

text \<open>\<open>A.flatten()\<close>: the entries in row-major order, as a 1-D sequence.\<close>

definition t_flatten :: "tensor \<Rightarrow> real list" where
  "t_flatten A = map (\<lambda>m. entry A (m div ncols A) (m mod ncols A)) [0..<nrows A * ncols A]"

text \<open>
  The assignment \<open>A[i][j] = x\<close> of a scalar (IndexError out of range), and the slice
  assignments \<open>A[k:k+1, :] = V\<close> and \<open>A[:, 0:m] = V\<close>, where \<open>V\<close> must broadcast to the
  shape of the slice.
\<close>

definition t_set :: "tensor \<Rightarrow> nat \<Rightarrow> nat \<Rightarrow> real \<Rightarrow> tensor option" where
  "t_set A i j x =
     (if i < nrows A \<and> j < ncols A
      then Some (A\<lparr>entry := (\<lambda>i' j'. if i' = i \<and> j' = j then x else entry A i' j')\<rparr>)
      else None)"

definition fits :: "tensor \<Rightarrow> nat \<Rightarrow> nat \<Rightarrow> bool" where
  "fits V r c \<longleftrightarrow> (nrows V = r \<or> nrows V = 1) \<and> (ncols V = c \<or> ncols V = 1)"

definition t_set_row :: "tensor \<Rightarrow> nat \<Rightarrow> tensor \<Rightarrow> tensor option" where
  "t_set_row A k V =
     (if fits V (min (k + 1) (nrows A) - k) (ncols A)
      then Some (A\<lparr>entry := (\<lambda>i j. if i = k \<and> i < nrows A \<and> j < ncols A
                                     then entry V 0 (bidx (ncols V) j) else entry A i j)\<rparr>)
      else None)"

definition t_set_cols :: "tensor \<Rightarrow> nat \<Rightarrow> tensor \<Rightarrow> tensor option" where
  "t_set_cols A m V =
     (if fits V (nrows A) (min m (ncols A))
      then Some (A\<lparr>entry := (\<lambda>i j. if i < nrows A \<and> j < min m (ncols A)
                                     then entry V (bidx (nrows V) i) (bidx (ncols V) j)
                                     else entry A i j)\<rparr>)
      else None)"

section \<open>Tensor objects and callables\<close>

text \<open>
  A torch tensor object carries, besides its data, the flag \<open>requires_grad\<close> that ties it
  to the differentiation graph. The quadrature points are shared by reference between the
  quadrature provider and the energy functional and the flag is set in place, so tensor
  objects live in a store and are named by their address. Objects are never freed;
  \<open>detach\<close> makes a new object with the same data and the flag off.
\<close>

record tobject =
  data :: tensor
  requires_grad :: bool

type_synonym addr = nat
type_synonym heap = "tobject list"

definition detach :: "tobject \<Rightarrow> tobject" where
  "detach v = v\<lparr>requires_grad := False\<rparr>"

text \<open>\<open>Tensor.requires_grad_()\<close> sets the flag of the object itself.\<close>

definition requires_grad_set :: "heap \<Rightarrow> addr \<Rightarrow> heap" where
  "requires_grad_set h a = h[a := (h ! a)\<lparr>requires_grad := True\<rparr>]"

text \<open>
  A callable \<open>u\<close> on the quadrature points is modelled by what differentiation finds in
  it at points \<open>p\<close>: the value \<open>u(p)\<close>, the gradient of \<open>u(p).sum()\<close> with respect to \<open>p\<close>, the
  gradient of the sum of that gradient, and how far the differentiation graph reaches:
  0 when the value does not depend on \<open>p\<close> through the graph, 1 when the value does and its
  gradient does not (as for \<open>u(p) = p\<close>, whose gradient is a constant), 2 when the gradient
  does too. \<open>None\<close> stands for a call that raises.
\<close>

type_synonym jet = "tensor \<times> tensor \<times> tensor \<times> nat"
type_synonym callable = "tensor \<Rightarrow> jet option"

section \<open>The collaborators of the energy functional\<close>

text \<open>
  Modelled from the spec: the activation family (\<open>greedy.model.activation_function\<close>), the
  quadrature provider and the PDE problem are not among the sources. The spec gives
  \<open>activate(matrix)\<close> and \<open>dactivate(matrix, order)\<close> as elementwise maps, the quadrature as
  points, weights and area, and the PDE as \<open>source(points)\<close> and \<open>solution(points)\<close>.
\<close>

record activation =
  activate :: "real \<Rightarrow> real"
  dactivate :: "real \<Rightarrow> nat \<Rightarrow> real"

record quadrature =
  quad_pts :: addr
  quad_weights :: tensor
  quad_area :: real

record pde_problem =
  source :: "tensor \<Rightarrow> tensor"
  solution :: callable

section \<open>The energy functional \<open>FNM_Elliptic_4th_1d_NBC\<close>\<close>

record energy =
  sigma :: "real \<Rightarrow> real"
  dsigma :: "real \<Rightarrow> nat \<Rightarrow> real"
  quadpts :: addr
  weights :: tensor
  area :: real
  source_data :: tensor
  pde :: pde_problem
  device :: string
  pre_solution :: callable
  parallel_evaluation :: bool

text \<open>
  \<open>_zero\<close>: \<open>0. * torch.sin(p)\<close>, with the derivatives \<open>0. * cos(p)\<close> and \<open>0. * (-sin(p))\<close>
  that differentiation of this expression gives; value and gradient are in the graph.
\<close>

definition zero_fn :: callable where
  "zero_fn p = Some (t_map (\<lambda>x. 0 * sin x) p, t_map (\<lambda>x. 0 * cos x) p,
                     t_map (\<lambda>x. 0 * (- sin x)) p, 2)"

text \<open>\<open>__init__\<close>; the tracked solution starts as \<open>_zero\<close>.\<close>

definition init :: "activation \<Rightarrow> quadrature \<Rightarrow> pde_problem \<Rightarrow> string \<Rightarrow> bool \<Rightarrow> heap
    \<Rightarrow> energy option" where
  "init act quad prob dev par h =
     (if quad_pts quad < length h
      then Some \<lparr>sigma = activate act, dsigma = dactivate act,
                 quadpts = quad_pts quad, weights = quad_weights quad, area = quad_area quad,
                 source_data = source prob (data (h ! quad_pts quad)), pde = prob,
                 device = dev, pre_solution = zero_fn, parallel_evaluation = par\<rparr>
      else None)"

text \<open>
  \<open>_get_energy_items\<close>. The first line sets the flag on the stored object; the last line
  stores a new detached object. The first \<open>torch.autograd.grad\<close> raises when the value is
  not in the graph, the second when the gradient is not. A store without the stored
  address does not occur.
\<close>

definition get_energy_items :: "energy \<Rightarrow> heap \<Rightarrow> callable
    \<Rightarrow> ((tobject \<times> tobject \<times> tobject) \<times> energy \<times> heap) option" where
  "get_energy_items self h obj_func =
     (if quadpts self < length h then
        do { let h1 = requires_grad_set h (quadpts self);
             let qp = h1 ! quadpts self;
             (val, grad, hess, graph) \<leftarrow> obj_func (data qp);
             let obj_val = \<lparr>data = val, requires_grad = requires_grad qp\<rparr>;
             let obj_val_data = detach obj_val;
             if graph < 1 then None else
             do { let gradient = \<lparr>data = grad, requires_grad = True\<rparr>;
                  let obj_grad_data = detach gradient;
                  if graph < 2 then None else
                  do { let hessian = \<lparr>data = hess, requires_grad = False\<rparr>;
                       let obj_hess_data = detach hessian;
                       let h2 = h1 @ [detach (h1 ! quadpts self)];
                       let self' = self\<lparr>quadpts := length h1\<rparr>;
                       Some ((obj_val_data, obj_grad_data, obj_hess_data), self', h2) } } }
      else None)"

text \<open>
  \<open>_get_error\<close>: \<open>solution(p) - pre_solution(p)\<close>, a difference with broadcasting. The sum
  of the broadcast difference has each value of a callable as often as broadcasting
  repeats it, so its gradient is the difference of the two gradients with these counts
  as factors, and likewise for the Hessian. The difference is in the graph as far as one
  of the two is.
\<close>

definition bcount :: "nat \<Rightarrow> nat \<Rightarrow> nat" where
  "bcount a r = (if a = 1 then r else 1)"

definition repeats :: "tensor \<Rightarrow> tensor \<Rightarrow> real" where
  "repeats A V = real (bcount (nrows A) (nrows V) * bcount (ncols A) (ncols V))"

definition get_error :: "energy \<Rightarrow> callable" where
  "get_error self p =
     do { (sv, sg, sh, sk) \<leftarrow> solution (pde self) p;
          (uv, ug, uh, uk) \<leftarrow> pre_solution self p;
          v \<leftarrow> t_sub sv uv;
          g \<leftarrow> t_sub (t_scale sg (repeats sv v)) (t_scale ug (repeats uv v));
          h \<leftarrow> t_sub (t_scale sh (repeats sv v)) (t_scale uh (repeats uv v));
          Some (v, g, h, max sk uk) }"

text \<open>\<open>_energy_norm\<close>; the loop over the three items is \<open>energy_norm_loop\<close>.\<close>

fun energy_norm_loop :: "energy \<Rightarrow> tobject list \<Rightarrow> real \<Rightarrow> real option" where
  "energy_norm_loop self [] energy_norm = Some energy_norm"
| "energy_norm_loop self (item # items) energy_norm =
     do { h \<leftarrow> t_mul (t_pow2 (data item)) (weights self);
          energy_norm_loop self items (energy_norm + t_sum h * area self) }"

definition energy_norm :: "energy \<Rightarrow> heap \<Rightarrow> callable
    \<Rightarrow> ((real \<times> real) \<times> energy \<times> heap) option" where
  "energy_norm self h obj_func =
     do { ((i0, i1, i2), self1, h1) \<leftarrow> get_energy_items self h obj_func;
          l2 \<leftarrow> t_mul (t_pow2 (data i0)) (weights self1);
          let l2_norm = t_sum l2 * area self1;
          en \<leftarrow> energy_norm_loop self1 [i0, i1, i2] 0;
          Some ((l2_norm, en), self1, h1) }"

definition energy_error :: "energy \<Rightarrow> heap \<Rightarrow> ((real \<times> real) \<times> energy \<times> heap) option" where
  "energy_error self h = energy_norm self h (get_error self)"

text \<open>\<open>get_stiffmat_and_rhs\<close>.\<close>

definition get_stiffmat_and_rhs :: "energy \<Rightarrow> tensor \<Rightarrow> tensor \<Rightarrow> (tensor \<times> tensor) option" where
  "get_stiffmat_and_rhs self parameters core =
     do { let w = t_cols parameters 0 1;
          v \<leftarrow> t_mul w w;
          let g1 = t_map (sigma self) core;
          let d2g1 = t_map (\<lambda>x. dsigma self x 2) core;
          g2 \<leftarrow> t_mul g1 (t_T (weights self));
          d2g2 \<leftarrow> t_mul d2g1 (t_T (weights self));
          G0 \<leftarrow> t_mm g1 (t_T g2);
          let G = t_scale G0 (area self);
          D0 \<leftarrow> t_mm d2g1 (t_T d2g2);
          V \<leftarrow> t_mm v (t_T v);
          D1 \<leftarrow> t_mul D0 V;
          let d2G = t_scale D1 (area self);
          Gk \<leftarrow> t_add d2G G;
          f \<leftarrow> t_mul (source_data self) (weights self);
          b0 \<leftarrow> t_mm g1 f;
          let bk = t_scale b0 (area self);
          Some (Gk, bk) }"

text \<open>
  \<open>evaluate\<close>. \<open>param\<close> is the pair \<open>(param[0], param[1])\<close>. The term \<open>d2ud2g + ug - fg\<close> of
  the last assignment is \<open>evaluate_residual\<close>; \<open>evaluate\<close> squares it, scaled by the area,
  and multiplies by \<open>-(1/2)\<close>.
\<close>

definition evaluate_residual :: "energy \<Rightarrow> heap \<Rightarrow> tensor \<times> tensor
    \<Rightarrow> (tensor \<times> energy \<times> heap) option" where
  "evaluate_residual self h param =
     do { ((u_val, u_grad, u_hess), self1, h1) \<leftarrow> get_energy_items self h (pre_solution self);
          let w = fst param;
          A \<leftarrow> t_cat1 (fst param) (snd param);
          let qp = data (h1 ! quadpts self1);
          let ones = t_ones (nrows qp) 1;
          Bt \<leftarrow> t_cat1 qp ones;
          let B = t_T Bt;
          core \<leftarrow> t_mm A B;
          let g = t_map (sigma self1) core;
          let d2g = t_map (\<lambda>x. dsigma self1 x 2) core;
          fw \<leftarrow> t_mul (source_data self1) (weights self1);
          fg \<leftarrow> t_mm g fw;
          uw \<leftarrow> t_mul (data u_val) (weights self1);
          ug \<leftarrow> t_mm g uw;
          hw \<leftarrow> t_mul (data u_hess) (weights self1);
          dd \<leftarrow> t_mm d2g hw;
          dw \<leftarrow> t_mul dd w;
          d2ud2g \<leftarrow> t_mul dw w;
          s \<leftarrow> t_add d2ud2g ug;
          r \<leftarrow> t_sub s fg;
          Some (r, self1, h1) }"

definition evaluate :: "energy \<Rightarrow> heap \<Rightarrow> tensor \<times> tensor \<Rightarrow> (tensor \<times> energy \<times> heap) option" where
  "evaluate self h param =
     do { (r, self1, h1) \<leftarrow> evaluate_residual self h param;
          let energy_eval = t_map (\<lambda>x. - (1 / 2) * x) (t_pow2 (t_scale r (area self1)));
          Some (energy_eval, self1, h1) }"

definition evaluate_large_scale :: "energy \<Rightarrow> heap \<Rightarrow> tensor \<times> tensor
    \<Rightarrow> (tensor \<times> energy \<times> heap) option" where
  "evaluate_large_scale self h param = evaluate self h param"

definition update_solution :: "energy \<Rightarrow> callable \<Rightarrow> energy" where
  "update_solution self new_solution = self\<lparr>pre_solution := new_solution\<rparr>"

section \<open>The collaborators of the greedy loop\<close>

text \<open>
  Modelled from the spec: the neuron dictionary (\<open>greedy.model.neuron_dictionary_2d\<close>), the
  shallow network (\<open>greedy.model.shallownet\<close>) and \<open>torch.linalg.solve\<close> are not among the
  sources. By the spec, \<open>find_optimal_element\<close> is a function of the current energy state
  without side effects, and \<open>update_neurons\<close> replaces the full parameter set of the
  network; the forward pass is a callable determined by those parameters. The linear solver
  is a parameter of the loop; it returns \<open>None\<close> where it raises.
\<close>

record dictionary =
  geo_dim :: nat
  find_optimal_element :: "energy \<Rightarrow> heap \<Rightarrow> real list option"

type_synonym neurons = "tensor \<times> tensor \<times> real list"

record shallow_nn =
  num_neurons :: nat
  neuron_parameters :: neurons
  forward_pass :: "neurons \<Rightarrow> callable"

definition update_neurons :: "shallow_nn \<Rightarrow> neurons \<Rightarrow> shallow_nn" where
  "update_neurons snn parameters = snn\<lparr>neuron_parameters := parameters\<rparr>"

definition forward :: "shallow_nn \<Rightarrow> callable" where
  "forward snn = forward_pass snn (neuron_parameters snn)"

type_synonym solver = "tensor \<Rightarrow> tensor \<Rightarrow> tensor option"

section \<open>The greedy loop \<open>orthogonal_greedy\<close>\<close>

text \<open>
  The containers of the loop, the energy functional with the store of its tensor objects,
  and the network. \<open>snn.forward\<close> is a method bound to the network object, which
  \<open>update_neurons\<close> mutates; the loop calls \<open>update_solution(snn.forward)\<close> right after
  \<open>update_neurons\<close> and before any other use of the energy functional, so the tracked
  solution is modelled by the forward pass of the network value at that moment.
\<close>

record oga_state =
  errl2_record :: tensor
  errh1_record :: tensor
  core_mat :: tensor
  inner_param :: tensor
  outer_param :: tensor
  energy_obj :: energy
  store :: heap
  snn :: shallow_nn

text \<open>\<open>A[k] = x\<close> for a scalar \<open>x\<close>: every entry of row \<open>k\<close> (IndexError out of range).\<close>

definition t_fill_row :: "tensor \<Rightarrow> nat \<Rightarrow> real \<Rightarrow> tensor option" where
  "t_fill_row A k x =
     (if k < nrows A
      then Some (A\<lparr>entry := (\<lambda>i j. if i = k then x else entry A i j)\<rparr>)
      else None)"

text \<open>The loop \<open>for d in range(dim+1): inner_param[k][d] = optimal_element[d]\<close>.\<close>

fun update_parameter_list :: "tensor \<Rightarrow> nat \<Rightarrow> real list \<Rightarrow> nat list \<Rightarrow> tensor option" where
  "update_parameter_list inner k optimal_element [] = Some inner"
| "update_parameter_list inner k optimal_element (d # ds) =
     (if d < length optimal_element
      then do { inner' \<leftarrow> t_set inner k d (optimal_element ! d);
                update_parameter_list inner' k optimal_element ds }
      else None)"

text \<open>
  The first half of an iteration, up to the assembly of the system: it returns the state
  and the pair \<open>system\<close>. Printing and timing are left out. \<open>torch.sqrt\<close> of a negative
  number is NaN, which the reals do not have; the two values are not negative when the
  weights and the area are positive.
\<close>

definition select_and_assemble :: "dictionary \<Rightarrow> nat \<Rightarrow> nat \<Rightarrow> nat \<Rightarrow> oga_state
    \<Rightarrow> (oga_state \<times> tensor \<times> tensor) option" where
  "select_and_assemble dict gdim num_quadpts k st =
     do { (errors, energy1, h1) \<leftarrow> energy_error (energy_obj st) (store st);
          let errl2 = sqrt (fst errors);
          let errh1 = sqrt (snd errors);
          errl2_record1 \<leftarrow> t_fill_row (errl2_record st) k errl2;
          errh1_record1 \<leftarrow> t_fill_row (errh1_record st) k errh1;
          optimal_element \<leftarrow> find_optimal_element dict energy1 h1;
          inner_param1 \<leftarrow> update_parameter_list (inner_param st) k optimal_element [0..<gdim + 1];
          let Ak = t_reshape_row (t_rows inner_param1 k (k + 1));
          let ones = t_ones num_quadpts 1;
          Bk \<leftarrow> t_cat1 (data (h1 ! quadpts energy1)) ones;
          Ck \<leftarrow> t_mm Ak (t_T Bk);
          core_mat1 \<leftarrow> t_set_row (core_mat st) k Ck;
          let core = t_rows core_mat1 0 (k + 1);
          system \<leftarrow> get_stiffmat_and_rhs energy1 (t_rows inner_param1 0 (k + 1)) core;
          Some (st\<lparr>errl2_record := errl2_record1, errh1_record := errh1_record1,
                    core_mat := core_mat1, inner_param := inner_param1,
                    energy_obj := energy1, store := h1\<rparr>, system) }"

text \<open>The Galerkin projection: \<open>coef = torch.linalg.solve(Gk, bk)\<close>.\<close>

definition galerkin_projection :: "solver \<Rightarrow> tensor \<times> tensor \<Rightarrow> tensor option" where
  "galerkin_projection solve system = solve (fst system) (snd system)"

text \<open>The second half of an iteration: projection, network update, solution update.\<close>

definition project_and_update :: "solver \<Rightarrow> nat \<Rightarrow> nat \<Rightarrow> oga_state \<times> tensor \<times> tensor
    \<Rightarrow> oga_state option" where
  "project_and_update solve gdim k sts =
     do { let st = fst sts;
          coef \<leftarrow> galerkin_projection solve (snd sts);
          outer_param1 \<leftarrow> t_set_cols (outer_param st) (k + 1) (t_reshape_row coef);
          let w1 = t_cols (inner_param st) 0 gdim;
          let b1 = t_flatten (t_cols (inner_param st) gdim (gdim + 1));
          let w2 = outer_param1;
          let snn1 = update_neurons (snn st) (w2, w1, b1);
          let energy2 = update_solution (energy_obj st) (forward snn1);
          Some (st\<lparr>outer_param := outer_param1, snn := snn1, energy_obj := energy2\<rparr>) }"

definition oga_iteration :: "solver \<Rightarrow> dictionary \<Rightarrow> nat \<Rightarrow> nat \<Rightarrow> nat \<Rightarrow> oga_state
    \<Rightarrow> oga_state option" where
  "oga_iteration solve dict gdim num_quadpts k st =
     do { sts \<leftarrow> select_and_assemble dict gdim num_quadpts k st;
          project_and_update solve gdim k sts }"

text \<open>The loop \<open>for k in range(num_epochs)\<close>, over the list of its indices.\<close>

fun oga_loop :: "solver \<Rightarrow> dictionary \<Rightarrow> nat \<Rightarrow> nat \<Rightarrow> nat list \<Rightarrow> oga_state
    \<Rightarrow> oga_state option" where
  "oga_loop solve dict gdim num_quadpts [] st = Some st"
| "oga_loop solve dict gdim num_quadpts (k # ks) st =
     do { st' \<leftarrow> oga_iteration solve dict gdim num_quadpts k st;
          oga_loop solve dict gdim num_quadpts ks st' }"

text \<open>The state before the loop.\<close>

definition oga_start :: "dictionary \<Rightarrow> energy \<Rightarrow> heap \<Rightarrow> shallow_nn \<Rightarrow> oga_state" where
  "oga_start dict en h net =
     (let num_epochs = num_neurons net;
          gdim = geo_dim dict;
          num_quadpts = nrows (data (h ! quadpts en))
      in \<lparr>errl2_record = t_zeros num_epochs 1, errh1_record = t_zeros num_epochs 1,
           core_mat = t_zeros num_epochs num_quadpts,
           inner_param = t_zeros num_epochs (gdim + 1),
           outer_param = t_zeros 1 num_epochs,
           energy_obj = en, store = h, snn = net\<rparr>)"

text \<open>
  The state after the first \<open>m\<close> iterations, and the whole function. The energy functional
  holds an object of the store.
\<close>

definition oga_after :: "solver \<Rightarrow> dictionary \<Rightarrow> energy \<Rightarrow> heap \<Rightarrow> shallow_nn \<Rightarrow> nat
    \<Rightarrow> oga_state option" where
  "oga_after solve dict en h net m =
     (if quadpts en < length h
      then oga_loop solve dict (geo_dim dict) (nrows (data (h ! quadpts en))) [0..<m]
             (oga_start dict en h net)
      else None)"

definition orthogonal_greedy :: "solver \<Rightarrow> dictionary \<Rightarrow> energy \<Rightarrow> heap \<Rightarrow> shallow_nn
    \<Rightarrow> (tensor \<times> tensor \<times> shallow_nn) option" where
  "orthogonal_greedy solve dict en h net =
     do { st \<leftarrow> oga_after solve dict en h net (num_neurons net);
          Some (errl2_record st, errh1_record st, snn st) }"

section \<open>Predicates used in the statements\<close>

text \<open>A square tensor that equals its transpose.\<close>

definition symmetric :: "tensor \<Rightarrow> bool" where
  "symmetric A \<longleftrightarrow>
     nrows A = ncols A \<and> (\<forall>i<nrows A. \<forall>j<nrows A. entry A i j = entry A j i)"

text \<open>All entries of a tensor are non-negative, or positive.\<close>

definition nonneg_entries :: "tensor \<Rightarrow> bool" where
  "nonneg_entries W \<longleftrightarrow> (\<forall>i<nrows W. \<forall>j<ncols W. 0 \<le> entry W i j)"

definition positive_entries :: "tensor \<Rightarrow> bool" where
  "positive_entries W \<longleftrightarrow> (\<forall>i<nrows W. \<forall>j<ncols W. 0 < entry W i j)"

text \<open>
  The weighted quadrature sum of the square of one item, scaled by the area:
  \<open>(item.pow(2) * self.weights).sum() * self.area\<close>.
\<close>

definition quadrature_sum :: "energy \<Rightarrow> tensor \<Rightarrow> real option" where
  "quadrature_sum self item =
     map_option (\<lambda>H. t_sum H * area self) (t_mul (t_pow2 item) (weights self))"

text \<open>The store after a call of \<open>_get_energy_items\<close> in the store \<open>h\<close> with the points at \<open>a\<close>.\<close>

definition store_after :: "heap \<Rightarrow> addr \<Rightarrow> heap" where
  "store_after h a = h[a := (h ! a)\<lparr>requires_grad := True\<rparr>] @ [(h ! a)\<lparr>requires_grad := False\<rparr>]"

text \<open>
  Two states of the energy functional with the same discretisation: they differ at most
  in the stored quadrature-point object and in the tracked solution.
\<close>

definition same_discretisation :: "energy \<Rightarrow> energy \<Rightarrow> bool" where
  "same_discretisation e e' \<longleftrightarrow>
     sigma e' = sigma e \<and> dsigma e' = dsigma e \<and> weights e' = weights e \<and>
     area e' = area e \<and> source_data e' = source_data e \<and> pde e' = pde e"

text \<open>\<open>A'\<close> has the shape of \<open>A\<close> and the same first \<open>m\<close> rows.\<close>

definition rows_kept :: "nat \<Rightarrow> tensor \<Rightarrow> tensor \<Rightarrow> bool" where
  "rows_kept m A A' \<longleftrightarrow>
     nrows A' = nrows A \<and> ncols A' = ncols A \<and> (\<forall>i<m. \<forall>j. entry A' i j = entry A i j)"

text \<open>
  The containers of the loop keep their shapes and their first \<open>m\<close> rows from state \<open>s\<close> to
  state \<open>s'\<close>; the discretisation and the network's size and forward pass stay the same.
\<close>

definition history_kept :: "nat \<Rightarrow> oga_state \<Rightarrow> oga_state \<Rightarrow> bool" where
  "history_kept m s s' \<longleftrightarrow>
     rows_kept m (errl2_record s) (errl2_record s') \<and>
     rows_kept m (errh1_record s) (errh1_record s') \<and>
     rows_kept m (core_mat s) (core_mat s') \<and>
     rows_kept m (inner_param s) (inner_param s') \<and>
     nrows (outer_param s') = nrows (outer_param s) \<and>
     ncols (outer_param s') = ncols (outer_param s) \<and>
     same_discretisation (energy_obj s) (energy_obj s') \<and>
     num_neurons (snn s') = num_neurons (snn s) \<and>
     forward_pass (snn s') = forward_pass (snn s)"

text \<open>
  The discrete bilinear form of neurons \<open>i\<close> and \<open>j\<close>, from rows \<open>i\<close> and \<open>j\<close> of the parameters
  \<open>P\<close> and of the core matrix \<open>C\<close>: the second-derivative term, scaled by the squares of
  the two input weights, plus the value term, each a weighted sum over the quadrature
  points times the area.
\<close>

definition bilinear_entry :: "energy \<Rightarrow> tensor \<Rightarrow> tensor \<Rightarrow> nat \<Rightarrow> nat \<Rightarrow> real" where
  "bilinear_entry e P C i j =
     (\<Sum>n<ncols C. dsigma e (entry C i n) 2 *
         (dsigma e (entry C j n) 2 * entry (weights e) (bidx (nrows (weights e)) n) 0))
     * (\<Sum>m<min 1 (ncols P). (entry P i m * entry P i m) * (entry P j m * entry P j m))
     * area e
     + (\<Sum>n<ncols C. sigma e (entry C i n) *
         (sigma e (entry C j n) * entry (weights e) (bidx (nrows (weights e)) n) 0))
       * area e"

text \<open>
  The pre-activation \<open>w\<^sub>i \<cdot> x\<^sub>n + b\<^sub>i\<close> of neuron \<open>i\<close> at quadrature point \<open>n\<close>: row \<open>i\<close> of the
  parameters \<open>P\<close> has the input weights in its first \<open>gdim\<close> columns and the bias in
  column \<open>gdim\<close>; row \<open>n\<close> of \<open>X\<close> is the point.
\<close>

definition preactivation :: "nat \<Rightarrow> tensor \<Rightarrow> tensor \<Rightarrow> nat \<Rightarrow> nat \<Rightarrow> real" where
  "preactivation gdim P X i n = (\<Sum>d<gdim. entry P i d * entry X n d) + entry P i gdim"

text \<open>
  The discrete bilinear form of neurons \<open>i\<close> and \<open>j\<close> and the load of neuron \<open>i\<close>, from the
  parameters and the quadrature points: the weighted sum over the points of the product of
  the second derivatives of the activation, times the squares of the two first input
  weights, plus the weighted sum of the product of the activations; and the weighted sum of
  the activation times the source. Each is scaled by the area.
\<close>

definition stiffness_form :: "energy \<Rightarrow> nat \<Rightarrow> tensor \<Rightarrow> tensor \<Rightarrow> nat \<Rightarrow> nat \<Rightarrow> real" where
  "stiffness_form e gdim P X i j =
     (\<Sum>n<nrows X. dsigma e (preactivation gdim P X i n) 2
                    * dsigma e (preactivation gdim P X j n) 2 * entry (weights e) n 0)
       * ((entry P i 0) ^ 2 * (entry P j 0) ^ 2) * area e
     + (\<Sum>n<nrows X. sigma e (preactivation gdim P X i n)
                      * sigma e (preactivation gdim P X j n) * entry (weights e) n 0)
       * area e"

definition load_form :: "energy \<Rightarrow> nat \<Rightarrow> tensor \<Rightarrow> tensor \<Rightarrow> nat \<Rightarrow> real" where
  "load_form e gdim P X i =
     (\<Sum>n<nrows X. sigma e (preactivation gdim P X i n)
                    * (entry (source_data e) n 0 * entry (weights e) n 0))
     * area e"

text \<open>
  Modelled from the spec: \<open>torch.linalg.solve(A, B)\<close> is not among the sources; the spec has it
  solve the dense linear system, so that the result \<open>X\<close> has the shape of \<open>B\<close> and \<open>A X = B\<close>.
\<close>

definition solves :: "tensor \<Rightarrow> tensor \<Rightarrow> tensor \<Rightarrow> bool" where
  "solves A X B \<longleftrightarrow>
     (\<forall>i<nrows B. \<forall>j<ncols B. (\<Sum>n<ncols A. entry A i n * entry X n j) = entry B i j)"

definition solver_contract :: "solver \<Rightarrow> bool" where
  "solver_contract solve \<longleftrightarrow>
     (\<forall>A B X. solve A B = Some X \<longrightarrow> nrows X = nrows B \<and> ncols X = ncols B \<and> solves A X B)"

text \<open>
  The energy functional of state \<open>s'\<close> holds a tensor object of the store with the
  numerical values of the quadrature points of state \<open>s\<close>.
\<close>

definition points_kept :: "oga_state \<Rightarrow> oga_state \<Rightarrow> bool" where
  "points_kept s s' \<longleftrightarrow>
     quadpts (energy_obj s') < length (store s') \<and>
     data (store s' ! quadpts (energy_obj s')) = data (store s ! quadpts (energy_obj s))"

text \<open>
  At the points \<open>p\<close> the callable returns a value per point, and a gradient and a Hessian
  of the shape of \<open>p\<close>, with value and gradient in the graph.
\<close>

definition jets_at :: "callable \<Rightarrow> tensor \<Rightarrow> bool" where
  "jets_at f p \<longleftrightarrow>
     (\<exists>v g s k. f p = Some (v, g, s, k) \<and> 2 \<le> k \<and> nrows v = nrows p \<and> ncols v = 1 \<and>
        nrows g = nrows p \<and> ncols g = ncols p \<and> nrows s = nrows p \<and> ncols s = ncols p)"

section \<open>A small instance\<close>

text \<open>
  Two quadrature points on the line with equal weights, the squared ReLU as activation,
  the exact solution \<open>u(x) = x\<^sup>2\<close> with source 1, a dictionary that returns the input weight 1
  and a bias that grows with the number of tensor objects in the store it is given, a
  network of two neurons with the forward pass of the spec,
  \<open>\<Sum>\<^sub>i coeff\<^sub>i \<sigma>(w\<^sub>i x + b\<^sub>i)\<close>, and a solver for systems of one and two equations.
\<close>

definition t_of_rows :: "real list list \<Rightarrow> tensor" where
  "t_of_rows rs = \<lparr>nrows = length rs, ncols = (case rs of [] \<Rightarrow> 0 | r # _ \<Rightarrow> length r),
                    entry = (\<lambda>i j. rs ! i ! j)\<rparr>"

definition ex_activation :: activation where
  "ex_activation = \<lparr>activate = (\<lambda>x. (max 0 x) ^ 2),
                     dactivate = (\<lambda>x n. if n = 1 then 2 * max 0 x
                                         else if n = 2 then (if 0 < x then 2 else 0) else 0)\<rparr>"

definition ex_points :: tensor where
  "ex_points = t_of_rows [[0], [1]]"

definition ex_store :: heap where
  "ex_store = [\<lparr>data = ex_points, requires_grad = False\<rparr>]"

definition ex_quadrature :: quadrature where
  "ex_quadrature = \<lparr>quad_pts = 0, quad_weights = t_of_rows [[1 / 2], [1 / 2]], quad_area = 1\<rparr>"

definition ex_pde :: pde_problem where
  "ex_pde = \<lparr>source = (\<lambda>p. t_map (\<lambda>x. 1) p),
              solution = (\<lambda>p. Some (t_map (\<lambda>x. x ^ 2) p, t_map (\<lambda>x. 2 * x) p,
                                      t_map (\<lambda>x. 2) p, 2))\<rparr>"

definition ex_energy :: energy where
  "ex_energy = the (init ex_activation ex_quadrature ex_pde ''cpu'' False ex_store)"

text \<open>
  The exact solution \<open>u(x) = x\<close>, written as the points themselves: its gradient is the
  constant 1, which is not in the graph.
\<close>

definition ex_linear_pde :: pde_problem where
  "ex_linear_pde = \<lparr>source = (\<lambda>p. p),
                     solution = (\<lambda>p. Some (p, t_map (\<lambda>x. 1) p, t_map (\<lambda>x. 0) p, 1))\<rparr>"

definition ex_linear_energy :: energy where
  "ex_linear_energy = the (init ex_activation ex_quadrature ex_linear_pde ''cpu'' False ex_store)"

text \<open>
  A callable that returns the sum of the points as a single value; its gradient is the
  constant 1, which is not in the graph.
\<close>

definition ex_total :: callable where
  "ex_total p = Some (\<lparr>nrows = 1, ncols = 1, entry = (\<lambda>i j. t_sum p)\<rparr>,
                      t_map (\<lambda>x. 1) p, t_map (\<lambda>x. 0) p, 1)"

definition ex_dictionary :: dictionary where
  "ex_dictionary = \<lparr>geo_dim = 1,
                     find_optimal_element = (\<lambda>e h. Some [1, real (length h) - 2])\<rparr>"

definition ex_forward :: "neurons \<Rightarrow> callable" where
  "ex_forward ps p =
     (case ps of (w2, w1, b1) \<Rightarrow>
        Some (t_map (\<lambda>x. \<Sum>n<ncols w2. entry w2 0 n
                          * activate ex_activation (entry w1 n 0 * x + b1 ! n)) p,
              t_map (\<lambda>x. \<Sum>n<ncols w2. entry w2 0 n
                          * dactivate ex_activation (entry w1 n 0 * x + b1 ! n) 1
                          * entry w1 n 0) p,
              t_map (\<lambda>x. \<Sum>n<ncols w2. entry w2 0 n
                          * dactivate ex_activation (entry w1 n 0 * x + b1 ! n) 2
                          * entry w1 n 0 * entry w1 n 0) p, 2))"

definition ex_network :: shallow_nn where
  "ex_network = \<lparr>num_neurons = 2, neuron_parameters = (t_zeros 1 2, t_zeros 2 1, [0, 0]),
                  forward_pass = ex_forward\<rparr>"

definition ex_solve :: solver where
  "ex_solve A B =
     (if nrows A = 1 \<and> ncols A = 1 \<and> nrows B = 1 \<and> entry A 0 0 \<noteq> 0
      then Some \<lparr>nrows = 1, ncols = ncols B, entry = (\<lambda>i j. entry B 0 j / entry A 0 0)\<rparr>
      else if nrows A = 2 \<and> ncols A = 2 \<and> nrows B = 2
              \<and> entry A 0 0 * entry A 1 1 - entry A 0 1 * entry A 1 0 \<noteq> 0
      then Some \<lparr>nrows = 2, ncols = ncols B,
                 entry = (\<lambda>i j. if i = 0
                    then (entry A 1 1 * entry B 0 j - entry A 0 1 * entry B 1 j)
                         / (entry A 0 0 * entry A 1 1 - entry A 0 1 * entry A 1 0)
                    else (entry A 0 0 * entry B 1 j - entry A 1 0 * entry B 0 j)
                         / (entry A 0 0 * entry A 1 1 - entry A 0 1 * entry A 1 0))\<rparr>
      else None)"

text \<open>Two neurons \<open>(w, b)\<close> and their core matrix on the two points.\<close>

definition ex_parameters :: tensor where
  "ex_parameters = t_of_rows [[1, 0], [1, 1]]"

definition ex_core :: tensor where
  "ex_core = t_of_rows [[0, 1], [1, 2]]"

text \<open>Two candidates \<open>(w, b)\<close>, as the columns \<open>param[0]\<close> and \<open>param[1]\<close>.\<close>

definition ex_param :: "tensor \<times> tensor" where
  "ex_param = (t_of_rows [[1], [1]], t_of_rows [[0], [1]])"

section \<open>Facts about the tensor operations\<close>

lemma bidx_less: "i < n \<Longrightarrow> bidx n i = i"
  by (simp add: bidx_def)

lemma bidx_one: "bidx (Suc 0) i = 0"
  by (simp add: bidx_def)

lemma bidx_idem: "bidx n (bidx n i) = bidx n i"
  by (simp add: bidx_def)

lemma bidx_bound: "bdim a b = Some r \<Longrightarrow> i < r \<Longrightarrow> bidx a i < a"
  by (auto simp: bdim_def bidx_def split: if_splits)

lemma bidx_bound_right: "bdim a b = Some r \<Longrightarrow> i < r \<Longrightarrow> bidx b i < b"
  by (auto simp: bdim_def bidx_def split: if_splits)

lemma t_binop_SomeD:
  assumes "t_binop f A B = Some C"
  shows "bdim (nrows A) (nrows B) = Some (nrows C)"
    and "bdim (ncols A) (ncols B) = Some (ncols C)"
    and "entry C i j = f (entry A (bidx (nrows A) i) (bidx (ncols A) j))
                         (entry B (bidx (nrows B) i) (bidx (ncols B) j))"
  using assms by (auto simp: t_binop_def bind_eq_Some_conv)

lemma t_mm_SomeD:
  assumes "t_mm A B = Some C"
  shows "ncols A = nrows B" and "nrows C = nrows A" and "ncols C = ncols B"
    and "entry C i j = (\<Sum>n<ncols A. entry A i n * entry B n j)"
  using assms by (auto simp: t_mm_def split: if_splits)

section \<open>The state of the energy functional across calls\<close>

lemma get_energy_items_eq:
  "get_energy_items self h f =
     (if quadpts self < length h
      then (case f (data (h ! quadpts self)) of
              None \<Rightarrow> None
            | Some (val, grad, hess, graph) \<Rightarrow>
                if 2 \<le> graph
                then Some ((\<lparr>data = val, requires_grad = False\<rparr>,
                            \<lparr>data = grad, requires_grad = False\<rparr>,
                            \<lparr>data = hess, requires_grad = False\<rparr>),
                           self\<lparr>quadpts := length h\<rparr>, store_after h (quadpts self))
                else None)
      else None)"
  by (cases "f (data (h ! quadpts self))")
     (auto simp: get_energy_items_def Let_def requires_grad_set_def detach_def store_after_def)

lemma get_error_quadpts: "get_error (self\<lparr>quadpts := a\<rparr>) = get_error self"
  by (rule ext) (simp add: get_error_def)

lemma quadrature_sum_quadpts: "quadrature_sum (self\<lparr>quadpts := a\<rparr>) = quadrature_sum self"
  by (rule ext) (simp add: quadrature_sum_def)

lemma energy_norm_loop_eq:
  "energy_norm_loop self [i0, i1, i2] acc =
     do { q0 \<leftarrow> quadrature_sum self (data i0);
          q1 \<leftarrow> quadrature_sum self (data i1);
          q2 \<leftarrow> quadrature_sum self (data i2);
          Some (acc + q0 + q1 + q2) }"
  by (auto simp: quadrature_sum_def split: Option.bind_splits)

lemma energy_norm_iff:
  "energy_norm self h f = Some ((l2, en), self1, h1) \<longleftrightarrow>
     quadpts self < length h \<and>
     (\<exists>val grad hess graph q0 q1 q2.
        f (data (h ! quadpts self)) = Some (val, grad, hess, graph) \<and> 2 \<le> graph \<and>
        quadrature_sum self val = Some q0 \<and> quadrature_sum self grad = Some q1 \<and>
        quadrature_sum self hess = Some q2 \<and> l2 = q0 \<and> en = q0 + q1 + q2) \<and>
     self1 = self\<lparr>quadpts := length h\<rparr> \<and> h1 = store_after h (quadpts self)"
  unfolding energy_norm_def get_energy_items_eq energy_norm_loop_eq
  by (auto simp: bind_eq_Some_conv quadrature_sum_def Let_def split: option.splits if_splits)

lemma store_after_points:
  "a < length h \<Longrightarrow> data (store_after h a ! length h) = data (h ! a)"
  by (simp add: store_after_def nth_append)

lemma length_store_after: "length (store_after h a) = Suc (length h)"
  by (simp add: store_after_def)

section \<open>Large-scale evaluation\<close>

text \<open>
  Claim C9: for every candidate parameter, in every state of the energy functional,
  \<open>evaluate_large_scale(param)\<close> returns what \<open>evaluate(param)\<close> returns, and leaves the
  energy functional and the tensor store in the same state.
\<close>

theorem evaluate_large_scale_eq_evaluate:
  "evaluate_large_scale self h param = evaluate self h param"
  by (simp add: evaluate_large_scale_def)

section \<open>Symmetry of the stiffness matrix\<close>

lemma symmetric_binop:
  assumes A: "symmetric A" and B: "symmetric B" and C: "t_binop f A B = Some C"
  shows "symmetric C"
proof -
  note d = t_binop_SomeD[OF C]
  have sq: "nrows C = ncols C"
    using d(1,2) A B by (simp add: symmetric_def)
  have "entry C i j = entry C j i" if "i < nrows C" "j < nrows C" for i j
  proof -
    have a: "bidx (nrows A) i < nrows A" "bidx (nrows A) j < nrows A"
      using bidx_bound[OF d(1)] that by auto
    have b: "bidx (nrows B) i < nrows B" "bidx (nrows B) j < nrows B"
      using bidx_bound_right[OF d(1)] that by auto
    have "entry A (bidx (nrows A) i) (bidx (nrows A) j)
            = entry A (bidx (nrows A) j) (bidx (nrows A) i)"
      using A a by (simp add: symmetric_def)
    moreover have "entry B (bidx (nrows B) i) (bidx (nrows B) j)
            = entry B (bidx (nrows B) j) (bidx (nrows B) i)"
      using B b by (simp add: symmetric_def)
    ultimately show ?thesis
      using A B by (simp add: d(3) symmetric_def)
  qed
  with sq show ?thesis by (simp add: symmetric_def)
qed

lemma symmetric_scale: "symmetric A \<Longrightarrow> symmetric (t_scale A c)"
  by (simp add: symmetric_def t_scale_def t_map_def)

text \<open>\<open>X (X * W)\<^sup>T\<close> is symmetric when \<open>W\<close> is one row of weights.\<close>

lemma symmetric_gram:
  assumes Y: "t_binop (\<lambda>x y. x * y) X W = Some Y" and W: "nrows W = 1"
    and G: "t_mm X (t_T Y) = Some G"
  shows "symmetric G"
proof -
  note y = t_binop_SomeD[OF Y]
  note g = t_mm_SomeD[OF G]
  have rows: "nrows Y = nrows X"
    using y(1) W by (simp add: bdim_def)
  have sq: "nrows G = ncols G"
    using g(2,3) rows by (simp add: t_T_def)
  have "entry G i j = entry G j i" if "i < nrows X" "j < nrows X" for i j
  proof -
    have "(\<Sum>n<ncols X. entry X i n * entry (t_T Y) n j)
            = (\<Sum>n<ncols X. entry X j n * entry (t_T Y) n i)"
    proof (rule sum.cong[OF refl])
      fix n assume "n \<in> {..<ncols X}"
      then have n: "n < ncols X" by simp
      show "entry X i n * entry (t_T Y) n j = entry X j n * entry (t_T Y) n i"
        using that n W by (simp add: t_T_def y(3) bidx_less bidx_one mult_ac)
    qed
    then show ?thesis by (simp add: g(4))
  qed
  with sq g(2) show ?thesis by (simp add: symmetric_def)
qed

lemma symmetric_outer:
  assumes "t_mm v (t_T v) = Some V"
  shows "symmetric V"
  using assms by (auto simp: t_mm_def symmetric_def t_T_def mult.commute split: if_splits)

text \<open>
  Claim C2: for every parameter history and core matrix for which \<open>get_stiffmat_and_rhs\<close>
  returns, the stiffness matrix \<open>Gk\<close> is square and equals its transpose. The weights of
  the quadrature set are a column, one weight per point. Arithmetic is exact, so the
  equality is exact; in floating point it holds up to rounding.
\<close>

theorem stiffness_symmetric:
  assumes "get_stiffmat_and_rhs self parameters core = Some (Gk, bk)"
    and "ncols (weights self) = 1"
  shows "symmetric Gk"
proof -
  from assms(1) obtain v g2 d2g2 G0 D0 V D1 where
    g2: "t_mul (t_map (sigma self) core) (t_T (weights self)) = Some g2"
    and d2g2: "t_mul (t_map (\<lambda>x. dsigma self x 2) core) (t_T (weights self)) = Some d2g2"
    and G0: "t_mm (t_map (sigma self) core) (t_T g2) = Some G0"
    and D0: "t_mm (t_map (\<lambda>x. dsigma self x 2) core) (t_T d2g2) = Some D0"
    and V: "t_mm v (t_T v) = Some V"
    and D1: "t_mul D0 V = Some D1"
    and Gk: "t_add (t_scale D1 (area self)) (t_scale G0 (area self)) = Some Gk"
    by (auto simp: get_stiffmat_and_rhs_def Let_def bind_eq_Some_conv)
  have W: "nrows (t_T (weights self)) = 1"
    using assms(2) by (simp add: t_T_def)
  have G0s: "symmetric G0"
    using symmetric_gram[OF g2[unfolded t_mul_def] W G0] .
  have "symmetric D0"
    using symmetric_gram[OF d2g2[unfolded t_mul_def] W D0] .
  moreover have "symmetric V"
    using symmetric_outer[OF V] .
  ultimately have "symmetric D1"
    using symmetric_binop D1 unfolding t_mul_def by blast
  then show ?thesis
    using symmetric_binop[OF symmetric_scale symmetric_scale Gk[unfolded t_add_def]] G0s
    by blast
qed

section \<open>The error norms\<close>

lemma quadrature_sum_nonneg:
  assumes q: "quadrature_sum self item = Some q" and W: "nonneg_entries (weights self)"
    and A: "0 \<le> area self"
  shows "0 \<le> q"
proof -
  from q obtain H where H: "t_mul (t_pow2 item) (weights self) = Some H"
    and qH: "q = t_sum H * area self"
    by (auto simp: quadrature_sum_def)
  note d = t_binop_SomeD[OF H[unfolded t_mul_def]]
  have "0 \<le> entry H i j" if "i < nrows H" "j < ncols H" for i j
  proof -
    have "bidx (nrows (weights self)) i < nrows (weights self)"
      "bidx (ncols (weights self)) j < ncols (weights self)"
      using bidx_bound_right[OF d(1)] bidx_bound_right[OF d(2)] that by auto
    then have "0 \<le> entry (weights self) (bidx (nrows (weights self)) i)
                                      (bidx (ncols (weights self)) j)"
      using W by (simp add: nonneg_entries_def)
    then show ?thesis
      by (simp add: d(3) t_pow2_def t_map_def)
  qed
  then have "0 \<le> t_sum H"
    unfolding t_sum_def by (intro sum_nonneg) simp
  then show ?thesis
    using A by (simp add: qH)
qed

text \<open>
  Claim C4: for every tracked solution, when the weights of the quadrature set are
  positive (and its area, as the quadrature contract has it), both scalars returned by
  \<open>energy_error()\<close> are non-negative; the first is the weighted quadrature sum of the
  squared error scaled by the area, the second is the sum of the three such sums for the
  error, its gradient and its Hessian.
\<close>

theorem energy_error_nonneg:
  assumes run: "energy_error self h = Some ((l2, en), self', h')"
    and W: "positive_entries (weights self)"
    and A: "0 < area self"
  shows "0 \<le> l2 \<and> 0 \<le> en \<and>
         (\<exists>val grad hess graph q0 q1 q2.
            get_error self (data (h ! quadpts self)) = Some (val, grad, hess, graph) \<and>
            quadrature_sum self val = Some q0 \<and> quadrature_sum self grad = Some q1 \<and>
            quadrature_sum self hess = Some q2 \<and> l2 = q0 \<and> en = q0 + q1 + q2)"
proof -
  from run obtain val grad hess graph q0 q1 q2 where
    f: "get_error self (data (h ! quadpts self)) = Some (val, grad, hess, graph)"
    and q: "quadrature_sum self val = Some q0" "quadrature_sum self grad = Some q1"
      "quadrature_sum self hess = Some q2"
    and r: "l2 = q0" "en = q0 + q1 + q2"
    unfolding energy_error_def energy_norm_iff by blast
  have nn: "nonneg_entries (weights self)"
    using W by (auto simp: positive_entries_def nonneg_entries_def intro: less_imp_le)
  have "0 \<le> q0" "0 \<le> q1" "0 \<le> q2"
    using q quadrature_sum_nonneg[OF _ nn] A by auto
  then show ?thesis
    using f q r by auto
qed

text \<open>
  Claim C6: when \<open>energy_error()\<close> returns, a second call right after it, with no
  \<open>update_solution\<close> in between, returns too, with the same two values. The first call
  has set and cleared the differentiation flag and stored a new tensor object for the
  quadrature points; the second call starts from that state.
\<close>

theorem energy_error_idempotent:
  assumes "energy_error self h = Some (errors, self1, h1)"
  shows "\<exists>self2 h2. energy_error self1 h1 = Some (errors, self2, h2)"
proof -
  obtain l2 en where e: "errors = (l2, en)" by (cases errors)
  note first = assms[unfolded energy_error_def e energy_norm_iff]
  have "energy_error self1 h1
          = Some ((l2, en), self1\<lparr>quadpts := length h1\<rparr>, store_after h1 (quadpts self1))"
    unfolding energy_error_def energy_norm_iff
    using first
    by (auto simp: get_error_quadpts quadrature_sum_quadpts store_after_points length_store_after)
  then show ?thesis by (simp add: e)
qed

section \<open>The state of the quadrature points\<close>

text \<open>
  Claim C8, as amended: every call of \<open>_get_energy_items\<close> that returns gives value,
  gradient and Hessian tensors with differentiation off; it switches differentiation on
  in place on the tensor object that the energy functional holds at the call, which keeps
  the flag afterwards and keeps its values; it then stores a new tensor object with the
  same numerical values and differentiation off; no other tensor object changes.
\<close>

theorem get_energy_items_effect:
  assumes "get_energy_items self h obj_func = Some ((v, g, s), self', h')"
  shows "\<not> requires_grad v \<and> \<not> requires_grad g \<and> \<not> requires_grad s \<and>
         quadpts self < length h \<and>
         h' ! quadpts self = (h ! quadpts self)\<lparr>requires_grad := True\<rparr> \<and>
         self' = self\<lparr>quadpts := length h\<rparr> \<and> length h' = length h + 1 \<and>
         data (h' ! quadpts self') = data (h ! quadpts self) \<and>
         \<not> requires_grad (h' ! quadpts self') \<and>
         (\<forall>a<length h. a \<noteq> quadpts self \<longrightarrow> h' ! a = h ! a)"
  using assms
  by (auto simp: get_energy_items_eq store_after_def nth_append
      split: if_splits option.splits)



section \<open>The score of a candidate\<close>

lemma evaluate_residual_area:
  "evaluate_residual self h param = Some (r, self1, h1) \<Longrightarrow> area self1 = area self"
  by (auto simp: evaluate_residual_def get_energy_items_eq bind_eq_Some_conv Let_def
      split: if_splits option.splits)

text \<open>
  Claim C5, as amended: for every candidate parameter for which \<open>evaluate\<close> returns, every
  entry of the returned score is minus one half times the square of the residual term
  \<open>d2ud2g + ug - fg\<close> (sums over the quadrature points with the weights) scaled by the
  area, and is therefore not positive; of two candidates the one with the greater squared
  residual has the smaller score, so the candidate of greatest squared residual is the
  one that minimises the score.
\<close>

theorem evaluate_nonpositive:
  assumes "evaluate self h param = Some (energy_eval, self1, h1)"
  shows "\<exists>r. evaluate_residual self h param = Some (r, self1, h1) \<and>
             nrows energy_eval = nrows r \<and> ncols energy_eval = ncols r \<and>
             (\<forall>i j. entry energy_eval i j = - (1 / 2) * (entry r i j * area self) ^ 2 \<and>
                    entry energy_eval i j \<le> 0) \<and>
             (\<forall>i j i' j'. entry energy_eval i j \<le> entry energy_eval i' j' \<longleftrightarrow>
                    (entry r i' j' * area self) ^ 2 \<le> (entry r i j * area self) ^ 2)"
proof -
  from assms obtain r where
    r: "evaluate_residual self h param = Some (r, self1, h1)"
    and e: "energy_eval = t_map (\<lambda>x. - (1 / 2) * x) (t_pow2 (t_scale r (area self1)))"
    by (auto simp: evaluate_def Let_def bind_eq_Some_conv)
  have a: "area self1 = area self"
    using evaluate_residual_area[OF r] .
  show ?thesis
    using r by (simp add: e a t_map_def t_pow2_def t_scale_def)
qed

section \<open>What one iteration of the greedy loop changes\<close>

lemma select_and_assemble_SomeD:
  assumes "select_and_assemble dict gdim N k st = Some (st1, sys)"
  obtains errors opt Bk Ck where
   "energy_error (energy_obj st) (store st) = Some (errors, energy_obj st1, store st1)"
   "t_fill_row (errl2_record st) k (sqrt (fst errors)) = Some (errl2_record st1)"
   "t_fill_row (errh1_record st) k (sqrt (snd errors)) = Some (errh1_record st1)"
   "find_optimal_element dict (energy_obj st1) (store st1) = Some opt"
   "update_parameter_list (inner_param st) k opt [0..<gdim + 1] = Some (inner_param st1)"
   "t_cat1 (data (store st1 ! quadpts (energy_obj st1))) (t_ones N 1) = Some Bk"
   "t_mm (t_reshape_row (t_rows (inner_param st1) k (k + 1))) (t_T Bk) = Some Ck"
   "t_set_row (core_mat st) k Ck = Some (core_mat st1)"
   "get_stiffmat_and_rhs (energy_obj st1) (t_rows (inner_param st1) 0 (k + 1))
       (t_rows (core_mat st1) 0 (k + 1)) = Some sys"
   "outer_param st1 = outer_param st" "snn st1 = snn st"
  using assms
  unfolding select_and_assemble_def Let_def
  by (fastforce simp: bind_eq_Some_conv)

lemma project_and_update_SomeD:
  assumes "project_and_update solve gdim k (st1, sys) = Some st2"
  obtains coef where
    "galerkin_projection solve sys = Some coef"
    "t_set_cols (outer_param st1) (k + 1) (t_reshape_row coef) = Some (outer_param st2)"
    "errl2_record st2 = errl2_record st1" "errh1_record st2 = errh1_record st1"
    "core_mat st2 = core_mat st1" "inner_param st2 = inner_param st1"
    "store st2 = store st1"
    "energy_obj st2 = update_solution (energy_obj st1) (forward (snn st2))"
    "snn st2 = update_neurons (snn st1)
       (outer_param st2, t_cols (inner_param st1) 0 gdim,
        t_flatten (t_cols (inner_param st1) gdim (gdim + 1)))"
  using assms
  unfolding project_and_update_def Let_def
  by (fastforce simp: bind_eq_Some_conv)

lemma rows_kept_refl: "rows_kept m A A"
  by (simp add: rows_kept_def)

lemma rows_kept_trans: "rows_kept m A B \<Longrightarrow> rows_kept m B C \<Longrightarrow> rows_kept m A C"
  by (simp add: rows_kept_def)

lemma rows_kept_mono: "rows_kept m A B \<Longrightarrow> m' \<le> m \<Longrightarrow> rows_kept m' A B"
  by (simp add: rows_kept_def)

lemma same_discretisation_refl: "same_discretisation e e"
  by (simp add: same_discretisation_def)

lemma same_discretisation_trans:
  "same_discretisation a b \<Longrightarrow> same_discretisation b c \<Longrightarrow> same_discretisation a c"
  by (simp add: same_discretisation_def)

lemma history_kept_refl: "history_kept m s s"
  by (simp add: history_kept_def rows_kept_refl same_discretisation_refl)

lemma history_kept_trans:
  "history_kept m a b \<Longrightarrow> history_kept m b c \<Longrightarrow> history_kept m a c"
  unfolding history_kept_def
  using rows_kept_trans same_discretisation_trans by (auto; blast)

lemma history_kept_mono: "history_kept m a b \<Longrightarrow> m' \<le> m \<Longrightarrow> history_kept m' a b"
  unfolding history_kept_def by (meson rows_kept_mono)

lemma t_fill_row_kept: "t_fill_row A k x = Some A' \<Longrightarrow> m \<le> k \<Longrightarrow> rows_kept m A A'"
  by (auto simp: t_fill_row_def rows_kept_def split: if_splits)

lemma t_set_kept: "t_set A k d x = Some A' \<Longrightarrow> m \<le> k \<Longrightarrow> rows_kept m A A'"
  by (auto simp: t_set_def rows_kept_def split: if_splits)

lemma t_set_row_kept: "t_set_row A k V = Some A' \<Longrightarrow> m \<le> k \<Longrightarrow> rows_kept m A A'"
  by (auto simp: t_set_row_def rows_kept_def split: if_splits)

lemma update_parameter_list_kept:
  "update_parameter_list A k opt ds = Some A' \<Longrightarrow> m \<le> k \<Longrightarrow> rows_kept m A A'"
proof (induction ds arbitrary: A)
  case Nil
  then show ?case by (simp add: rows_kept_refl)
next
  case (Cons d ds)
  from Cons.prems(1) obtain B where
    B: "t_set A k d (opt ! d) = Some B" and rest: "update_parameter_list B k opt ds = Some A'"
    by (auto simp: bind_eq_Some_conv split: if_splits)
  show ?case
    using rows_kept_trans[OF t_set_kept[OF B Cons.prems(2)] Cons.IH[OF rest Cons.prems(2)]] .
qed

lemma energy_error_same_discretisation:
  "energy_error e h = Some (r, e', h') \<Longrightarrow> same_discretisation e e'"
  by (cases r) (auto simp: energy_error_def energy_norm_iff same_discretisation_def)

lemma select_and_assemble_kept:
  assumes "select_and_assemble dict gdim N k st = Some (st1, sys)" and "m \<le> k"
  shows "history_kept m st st1"
proof -
  from assms(1) show ?thesis
  proof (rule select_and_assemble_SomeD)
    fix errors opt Bk Ck
    assume "energy_error (energy_obj st) (store st) = Some (errors, energy_obj st1, store st1)"
      "t_fill_row (errl2_record st) k (sqrt (fst errors)) = Some (errl2_record st1)"
      "t_fill_row (errh1_record st) k (sqrt (snd errors)) = Some (errh1_record st1)"
      "update_parameter_list (inner_param st) k opt [0..<gdim + 1] = Some (inner_param st1)"
      "t_set_row (core_mat st) k Ck = Some (core_mat st1)"
      "outer_param st1 = outer_param st" "snn st1 = snn st"
    then show ?thesis
      using assms(2)
      by (simp add: history_kept_def t_fill_row_kept update_parameter_list_kept t_set_row_kept
          energy_error_same_discretisation)
  qed
qed

lemma t_set_cols_shape:
  "t_set_cols A m V = Some A' \<Longrightarrow> nrows A' = nrows A \<and> ncols A' = ncols A"
  by (auto simp: t_set_cols_def split: if_splits)

lemma project_and_update_kept:
  assumes "project_and_update solve gdim k (st1, sys) = Some st2"
  shows "history_kept m st1 st2"
proof -
  from assms show ?thesis
  proof (rule project_and_update_SomeD)
    fix coef
    assume "t_set_cols (outer_param st1) (k + 1) (t_reshape_row coef) = Some (outer_param st2)"
      "errl2_record st2 = errl2_record st1" "errh1_record st2 = errh1_record st1"
      "core_mat st2 = core_mat st1" "inner_param st2 = inner_param st1"
      "energy_obj st2 = update_solution (energy_obj st1) (forward (snn st2))"
      "snn st2 = update_neurons (snn st1)
         (outer_param st2, t_cols (inner_param st1) 0 gdim,
          t_flatten (t_cols (inner_param st1) gdim (gdim + 1)))"
    then show ?thesis
      by (simp add: history_kept_def rows_kept_refl t_set_cols_shape same_discretisation_def
          update_solution_def update_neurons_def)
  qed
qed

lemma oga_iteration_kept:
  assumes "oga_iteration solve dict gdim N k st = Some st2" and "m \<le> k"
  shows "history_kept m st st2"
proof -
  from assms(1) obtain st1 sys where
    a: "select_and_assemble dict gdim N k st = Some (st1, sys)"
    and b: "project_and_update solve gdim k (st1, sys) = Some st2"
    by (auto simp: oga_iteration_def bind_eq_Some_conv)
  show ?thesis
    using history_kept_trans[OF select_and_assemble_kept[OF a assms(2)]
        project_and_update_kept[OF b]] .
qed

lemma oga_loop_kept:
  "oga_loop solve dict gdim N ks st = Some st' \<Longrightarrow> (\<forall>k\<in>set ks. m \<le> k) \<Longrightarrow>
     history_kept m st st'"
proof (induction ks arbitrary: st)
  case Nil
  then show ?case by (simp add: history_kept_refl)
next
  case (Cons k ks)
  from Cons.prems(1) obtain st1 where
    a: "oga_iteration solve dict gdim N k st = Some st1"
    and b: "oga_loop solve dict gdim N ks st1 = Some st'"
    by (auto simp: bind_eq_Some_conv)
  have "history_kept m st st1"
    using oga_iteration_kept[OF a] Cons.prems(2) by simp
  moreover have "history_kept m st1 st'"
    using Cons.IH[OF b] Cons.prems(2) by simp
  ultimately show ?case by (rule history_kept_trans)
qed

lemma oga_loop_append:
  "oga_loop solve dict gdim N (ks @ ks') st =
     do { st' \<leftarrow> oga_loop solve dict gdim N ks st; oga_loop solve dict gdim N ks' st' }"
  by (induction ks arbitrary: st) (simp_all split: Option.bind_split)

lemma oga_after_split:
  assumes "oga_after solve dict en h net m' = Some s'" and "m \<le> m'"
  obtains s where "oga_after solve dict en h net m = Some s"
    and "oga_loop solve dict (geo_dim dict) (nrows (data (h ! quadpts en))) [m..<m'] s = Some s'"
proof -
  have "[0..<m'] = [0..<m] @ [m..<m']"
    using assms(2) by (metis le_add_diff_inverse upt_add_eq_append zero_le)
  with assms(1) show ?thesis
    using that
    by (auto simp: oga_after_def oga_loop_append bind_eq_Some_conv split: if_splits)
qed

lemma oga_after_kept:
  assumes "oga_after solve dict en h net m = Some s"
    and "oga_after solve dict en h net m' = Some s'" and "m \<le> m'"
  shows "history_kept m s s'"
proof -
  from assms(2,3) obtain t where t: "oga_after solve dict en h net m = Some t"
    and l: "oga_loop solve dict (geo_dim dict) (nrows (data (h ! quadpts en))) [m..<m'] t = Some s'"
    by (rule oga_after_split)
  from t assms(1) have "t = s" by simp
  with oga_loop_kept[OF l, of m] show ?thesis by simp
qed

section \<open>The entries of the stiffness matrix\<close>

text \<open>
  With the weights a column and as many parameter rows as core rows, the entry \<open>(i, j)\<close> of
  the stiffness matrix is the discrete bilinear form of neurons \<open>i\<close> and \<open>j\<close>; it depends on rows
  \<open>i\<close> and \<open>j\<close> of the core matrix and of the parameters only.
\<close>

lemma stiffness_entries:
  assumes run: "get_stiffmat_and_rhs e P C = Some (G, b)"
    and col: "ncols (weights e) = 1" and rows: "nrows P = nrows C"
  shows "nrows G = nrows C" and "ncols G = nrows C"
    and "i < nrows C \<Longrightarrow> j < nrows C \<Longrightarrow>
         entry G i j = bilinear_entry e P C i j"
proof -
  let ?w = "t_cols P 0 1"
  let ?g1 = "t_map (sigma e) C"
  let ?d2g1 = "t_map (\<lambda>x. dsigma e x 2) C"
  let ?wT = "t_T (weights e)"
  from run obtain v g2 d2g2 G0 D0 V D1 where
    v: "t_binop (\<lambda>x y. x * y) ?w ?w = Some v"
    and g2: "t_binop (\<lambda>x y. x * y) ?g1 ?wT = Some g2"
    and d2g2: "t_binop (\<lambda>x y. x * y) ?d2g1 ?wT = Some d2g2"
    and G0: "t_mm ?g1 (t_T g2) = Some G0"
    and D0: "t_mm ?d2g1 (t_T d2g2) = Some D0"
    and V: "t_mm v (t_T v) = Some V"
    and D1: "t_binop (\<lambda>x y. x * y) D0 V = Some D1"
    and Gk: "t_binop (\<lambda>x y. x + y) (t_scale D1 (area e)) (t_scale G0 (area e)) = Some G"
    by (auto simp: get_stiffmat_and_rhs_def Let_def bind_eq_Some_conv t_mul_def t_add_def)
  note dv = t_binop_SomeD[OF v]
  note dg2 = t_binop_SomeD[OF g2]
  note dd2g2 = t_binop_SomeD[OF d2g2]
  note dG0 = t_mm_SomeD[OF G0]
  note dD0 = t_mm_SomeD[OF D0]
  note dV = t_mm_SomeD[OF V]
  note dD1 = t_binop_SomeD[OF D1]
  note dGk = t_binop_SomeD[OF Gk]
  have wT: "nrows ?wT = 1" "ncols ?wT = nrows (weights e)"
    using col by (simp_all add: t_T_def)
  have g2r: "nrows g2 = nrows C" and d2g2r: "nrows d2g2 = nrows C"
    using dg2(1) dd2g2(1) wT by (simp_all add: bdim_def t_map_def)
  have vr: "nrows v = nrows C" and vc: "ncols v = min 1 (ncols P)"
    using dv(1,2) rows by (simp_all add: bdim_def t_cols_def)
  have G0s: "nrows G0 = nrows C" "ncols G0 = nrows C"
    using dG0(2,3) g2r by (simp_all add: t_T_def t_map_def)
  have D0s: "nrows D0 = nrows C" "ncols D0 = nrows C"
    using dD0(2,3) d2g2r by (simp_all add: t_T_def t_map_def)
  have Vs: "nrows V = nrows C" "ncols V = nrows C"
    using dV(2,3) vr by (simp_all add: t_T_def)
  have D1s: "nrows D1 = nrows C" "ncols D1 = nrows C"
    using dD1(1,2) D0s Vs by (simp_all add: bdim_def)
  show Gr: "nrows G = nrows C" and Gc: "ncols G = nrows C"
    using dGk(1,2) D1s G0s by (simp_all add: bdim_def t_scale_def t_map_def)
  assume i: "i < nrows C" and j: "j < nrows C"
  have eG0: "entry G0 i j = (\<Sum>n<ncols C. sigma e (entry C i n) *
               (sigma e (entry C j n) * entry (weights e) (bidx (nrows (weights e)) n) 0))"
    unfolding dG0(4)
    using i j wT
    by (auto simp: t_map_def t_T_def dg2(3) bidx_less bidx_one intro!: sum.cong)
  have eD0: "entry D0 i j = (\<Sum>n<ncols C. dsigma e (entry C i n) 2 *
               (dsigma e (entry C j n) 2 * entry (weights e) (bidx (nrows (weights e)) n) 0))"
    unfolding dD0(4)
    using i j wT
    by (auto simp: t_map_def t_T_def dd2g2(3) bidx_less bidx_one intro!: sum.cong)
  have eV: "entry V i j
      = (\<Sum>m<min 1 (ncols P). (entry P i m * entry P i m) * (entry P j m * entry P j m))"
    unfolding dV(4) vc
    using i j rows
    by (auto simp: t_T_def dv(3) t_cols_def bidx_less intro!: sum.cong)
  have eD1: "entry D1 i j = entry D0 i j * entry V i j"
    using i j by (simp add: dD1(3) D0s Vs bidx_less)
  show "entry G i j = bilinear_entry e P C i j"
    using i j
    by (simp add: dGk(3) t_scale_def t_map_def D1s G0s bidx_less eD1 eD0 eV eG0
        bilinear_entry_def)
qed

lemma bilinear_entry_rows:
  assumes "same_discretisation e e'" and "ncols C' = ncols C" and "ncols P' = ncols P"
    and "\<And>n. entry C' i n = entry C i n" and "\<And>n. entry C' j n = entry C j n"
    and "\<And>m. entry P' i m = entry P i m" and "\<And>m. entry P' j m = entry P j m"
  shows "bilinear_entry e' P' C' i j = bilinear_entry e P C i j"
  using assms by (simp add: bilinear_entry_def same_discretisation_def)


section \<open>The stiffness matrices of a run\<close>

lemma oga_start_shapes:
  "nrows (errl2_record (oga_start dict en h net)) = num_neurons net"
  "nrows (errh1_record (oga_start dict en h net)) = num_neurons net"
  "nrows (core_mat (oga_start dict en h net)) = num_neurons net"
  "nrows (inner_param (oga_start dict en h net)) = num_neurons net"
  "ncols (inner_param (oga_start dict en h net)) = geo_dim dict + 1"
  "ncols (core_mat (oga_start dict en h net)) = nrows (data (h ! quadpts en))"
  "nrows (outer_param (oga_start dict en h net)) = 1"
  "ncols (outer_param (oga_start dict en h net)) = num_neurons net"
  "energy_obj (oga_start dict en h net) = en"
  by (simp_all add: oga_start_def Let_def t_zeros_def)

lemma oga_after_shapes:
  assumes "oga_after solve dict en h net m = Some s"
  shows "nrows (errl2_record s) = num_neurons net"
    and "nrows (errh1_record s) = num_neurons net"
    and "nrows (core_mat s) = num_neurons net"
    and "nrows (inner_param s) = num_neurons net"
    and "ncols (inner_param s) = geo_dim dict + 1"
    and "ncols (core_mat s) = nrows (data (h ! quadpts en))"
    and "nrows (outer_param s) = 1"
    and "ncols (outer_param s) = num_neurons net"
    and "same_discretisation en (energy_obj s)"
proof -
  from assms have "history_kept 0 (oga_start dict en h net) s"
    by (auto simp: oga_after_def intro: oga_loop_kept split: if_splits)
  then show "nrows (errl2_record s) = num_neurons net"
    and "nrows (errh1_record s) = num_neurons net"
    and "nrows (core_mat s) = num_neurons net"
    and "nrows (inner_param s) = num_neurons net"
    and "ncols (inner_param s) = geo_dim dict + 1"
    and "ncols (core_mat s) = nrows (data (h ! quadpts en))"
    and "nrows (outer_param s) = 1"
    and "ncols (outer_param s) = num_neurons net"
    and "same_discretisation en (energy_obj s)"
    by (simp_all add: history_kept_def rows_kept_def oga_start_shapes)
qed

lemma oga_after_Suc:
  "oga_after solve dict en h net (Suc m) =
     do { s \<leftarrow> oga_after solve dict en h net m;
          oga_iteration solve dict (geo_dim dict) (nrows (data (h ! quadpts en))) m s }"
  by (auto simp: oga_after_def oga_loop_append split: Option.bind_splits)

lemma select_and_assemble_system:
  assumes s: "oga_after solve dict en h net k = Some s"
    and a: "select_and_assemble dict (geo_dim dict) (nrows (data (h ! quadpts en))) k s
              = Some (s1, G, b)"
    and col: "ncols (weights en) = 1"
  shows "k < num_neurons net"
    and "get_stiffmat_and_rhs (energy_obj s1) (t_rows (inner_param s1) 0 (k + 1))
            (t_rows (core_mat s1) 0 (k + 1)) = Some (G, b)"
    and "nrows (t_rows (inner_param s1) 0 (k + 1)) = k + 1"
    and "nrows (t_rows (core_mat s1) 0 (k + 1)) = k + 1"
    and "nrows G = k + 1" and "ncols G = k + 1"
    and "ncols (weights (energy_obj s1)) = 1"
proof -
  note sh = oga_after_shapes[OF s]
  have hk: "history_kept k s s1"
    using select_and_assemble_kept[OF a] by simp
  from a show k: "k < num_neurons net"
    by (rule select_and_assemble_SomeD) (auto simp: t_fill_row_def sh split: if_splits)
  from a show sys: "get_stiffmat_and_rhs (energy_obj s1) (t_rows (inner_param s1) 0 (k + 1))
            (t_rows (core_mat s1) 0 (k + 1)) = Some (G, b)"
    by (rule select_and_assemble_SomeD)
  show r1: "nrows (t_rows (inner_param s1) 0 (k + 1)) = k + 1"
    and r2: "nrows (t_rows (core_mat s1) 0 (k + 1)) = k + 1"
    using hk k sh by (simp_all add: history_kept_def rows_kept_def t_rows_def)
  show c: "ncols (weights (energy_obj s1)) = 1"
    using hk sh(9) col by (simp add: history_kept_def same_discretisation_def)
  show "nrows G = k + 1" and "ncols G = k + 1"
    using stiffness_entries(1,2)[OF sys c] r1 r2 by simp_all
qed

text \<open>
  Claim C3: in a run of the greedy loop on a quadrature set whose weights are a column,
  for iterations \<open>k1 < k2\<close> the stiffness matrix assembled at iteration \<open>k1\<close> is
  \<open>(k1+1) \<times> (k1+1)\<close>, the one assembled at \<open>k2\<close> is \<open>(k2+1) \<times> (k2+1)\<close>, and the two agree
  on the leading \<open>(k1+1) \<times> (k1+1)\<close> block; the first \<open>k1+1\<close> rows of the core matrix are the
  same at both iterations.
\<close>

theorem stiffness_leading_submatrix:
  assumes s1: "oga_after solve dict en h net k1 = Some s1"
    and a1: "select_and_assemble dict (geo_dim dict) (nrows (data (h ! quadpts en))) k1 s1
              = Some (t1, G1, b1)"
    and s2: "oga_after solve dict en h net k2 = Some s2"
    and a2: "select_and_assemble dict (geo_dim dict) (nrows (data (h ! quadpts en))) k2 s2
              = Some (t2, G2, b2)"
    and less: "k1 < k2"
    and col: "ncols (weights en) = 1"
  shows "nrows G1 = k1 + 1 \<and> ncols G1 = k1 + 1 \<and> nrows G2 = k2 + 1 \<and> ncols G2 = k2 + 1 \<and>
         (\<forall>i\<le>k1. \<forall>j\<le>k1. entry G2 i j = entry G1 i j) \<and>
         rows_kept (k1 + 1) (core_mat t1) (core_mat t2)"
proof -
  let ?N = "nrows (data (h ! quadpts en))"
  note y1 = select_and_assemble_system[OF s1 a1 col]
  note y2 = select_and_assemble_system[OF s2 a2 col]
  from s2 less obtain u where u: "oga_after solve dict en h net (Suc k1) = Some u"
    and l: "oga_loop solve dict (geo_dim dict) ?N [Suc k1..<k2] u = Some s2"
    using oga_after_split[OF s2, of "Suc k1"] by auto
  from u s1 have it: "oga_iteration solve dict (geo_dim dict) ?N k1 s1 = Some u"
    by (simp add: oga_after_Suc)
  with a1 have p: "project_and_update solve (geo_dim dict) k1 (t1, G1, b1) = Some u"
    by (simp add: oga_iteration_def)
  have "history_kept (Suc k1) t1 u"
    using project_and_update_kept[OF p] .
  moreover have "history_kept (Suc k1) u s2"
    using oga_loop_kept[OF l, of "Suc k1"] by simp
  moreover have "history_kept (Suc k1) s2 t2"
    using select_and_assemble_kept[OF a2, of "Suc k1"] less by simp
  ultimately have hk: "history_kept (Suc k1) t1 t2"
    by (meson history_kept_trans)
  then have core: "rows_kept (Suc k1) (core_mat t1) (core_mat t2)"
    and par: "rows_kept (Suc k1) (inner_param t1) (inner_param t2)"
    and en: "same_discretisation (energy_obj t1) (energy_obj t2)"
    by (simp_all add: history_kept_def)
  have "entry G2 i j = entry G1 i j" if "i \<le> k1" "j \<le> k1" for i j
  proof -
    have e1: "entry G1 i j
        = bilinear_entry (energy_obj t1) (t_rows (inner_param t1) 0 (k1 + 1))
            (t_rows (core_mat t1) 0 (k1 + 1)) i j"
      using that y1(3,4) by (intro stiffness_entries(3)[OF y1(2) y1(7)]) simp_all
    have e2: "entry G2 i j
        = bilinear_entry (energy_obj t2) (t_rows (inner_param t2) 0 (k2 + 1))
            (t_rows (core_mat t2) 0 (k2 + 1)) i j"
      using that y2(3,4) less by (intro stiffness_entries(3)[OF y2(2) y2(7)]) simp_all
    show ?thesis
      unfolding e1 e2
      using that core par
      by (intro bilinear_entry_rows[OF en]) (simp_all add: rows_kept_def t_rows_def)
  qed
  then show ?thesis
    using y1(5,6) y2(5,6) core by simp
qed

section \<open>The Galerkin projection of an iteration\<close>

lemma rhs_shape:
  "get_stiffmat_and_rhs e P C = Some (G, b) \<Longrightarrow> nrows b = nrows C"
  by (auto simp: get_stiffmat_and_rhs_def Let_def bind_eq_Some_conv t_scale_def t_map_def
      dest!: t_mm_SomeD(2))

lemma update_parameter_list_untouched:
  "update_parameter_list A k opt ds = Some A' \<Longrightarrow> d \<notin> set ds \<Longrightarrow> entry A' k d = entry A k d"
proof (induction ds arbitrary: A)
  case Nil
  then show ?case by simp
next
  case (Cons x ds)
  from Cons.prems(1) obtain B where
    B: "t_set A k x (opt ! x) = Some B" and rest: "update_parameter_list B k opt ds = Some A'"
    by (auto simp: bind_eq_Some_conv split: if_splits)
  have "entry B k d = entry A k d"
    using B Cons.prems(2) by (auto simp: t_set_def split: if_splits)
  with Cons.IH[OF rest] Cons.prems(2) show ?case by simp
qed

lemma update_parameter_list_written:
  "update_parameter_list A k opt ds = Some A' \<Longrightarrow> distinct ds \<Longrightarrow> d \<in> set ds \<Longrightarrow>
     entry A' k d = opt ! d"
proof (induction ds arbitrary: A)
  case Nil
  then show ?case by simp
next
  case (Cons x ds)
  from Cons.prems(1) obtain B where
    B: "t_set A k x (opt ! x) = Some B" and rest: "update_parameter_list B k opt ds = Some A'"
    by (auto simp: bind_eq_Some_conv split: if_splits)
  show ?case
  proof (cases "d = x")
    case True
    then have "entry A' k d = entry B k d"
      using update_parameter_list_untouched[OF rest, of d] Cons.prems(2) by simp
    also have "\<dots> = opt ! d"
      using B True by (auto simp: t_set_def split: if_splits)
    finally show ?thesis .
  next
    case False
    then show ?thesis
      using Cons.IH[OF rest] Cons.prems(2,3) by simp
  qed
qed

lemma t_set_cols_SomeD:
  assumes "t_set_cols A m V = Some A'"
  shows "fits V (nrows A) (min m (ncols A))"
    and "entry A' i j = (if i < nrows A \<and> j < min m (ncols A)
                          then entry V (bidx (nrows V) i) (bidx (ncols V) j)
                          else entry A i j)"
  using assms by (auto simp: t_set_cols_def split: if_splits)

text \<open>The output weights of the iterations still to come are zero.\<close>

lemma oga_after_outer_zero:
  "oga_after solve dict en h net m = Some s \<Longrightarrow> m \<le> j \<Longrightarrow> entry (outer_param s) i j = 0"
proof (induction m arbitrary: s)
  case 0
  then show ?case
    by (auto simp: oga_after_def oga_start_def Let_def t_zeros_def split: if_splits)
next
  case (Suc m)
  let ?N = "nrows (data (h ! quadpts en))"
  from Suc.prems(1) obtain s0 where s0: "oga_after solve dict en h net m = Some s0"
    and it: "oga_iteration solve dict (geo_dim dict) ?N m s0 = Some s"
    by (auto simp: oga_after_Suc bind_eq_Some_conv)
  from it obtain s1 sys where
    a: "select_and_assemble dict (geo_dim dict) ?N m s0 = Some (s1, sys)"
    and p: "project_and_update solve (geo_dim dict) m (s1, sys) = Some s"
    by (auto simp: oga_iteration_def bind_eq_Some_conv)
  from a have o1: "outer_param s1 = outer_param s0"
    by (rule select_and_assemble_SomeD)
  from p obtain coef where
    w: "t_set_cols (outer_param s1) (m + 1) (t_reshape_row coef) = Some (outer_param s)"
    by (rule project_and_update_SomeD)
  have "entry (outer_param s) i j = entry (outer_param s1) i j"
    using t_set_cols_SomeD(2)[OF w, of i j] Suc.prems(2) by simp
  also have "\<dots> = 0"
    using Suc.IH[OF s0] Suc.prems(2) by (simp add: o1)
  finally show ?case .
qed

section \<open>The error history of a run\<close>

lemma t_fill_row_written:
  "t_fill_row A k x = Some A' \<Longrightarrow> entry A' k c = x"
  by (auto simp: t_fill_row_def split: if_splits)

lemma oga_after_tracked:
  assumes "oga_after solve dict en h net m = Some s"
  shows "pre_solution (energy_obj s) = (if m = 0 then pre_solution en else forward (snn s))"
proof (cases m)
  case 0
  with assms show ?thesis
    by (auto simp: oga_after_def oga_start_def Let_def split: if_splits)
next
  case (Suc m0)
  let ?N = "nrows (data (h ! quadpts en))"
  from assms[unfolded Suc oga_after_Suc] obtain t t1 sys where
    "select_and_assemble dict (geo_dim dict) ?N m0 t = Some (t1, sys)"
    and p: "project_and_update solve (geo_dim dict) m0 (t1, sys) = Some s"
    by (auto simp: oga_iteration_def bind_eq_Some_conv)
  from p have "energy_obj s = update_solution (energy_obj t1) (forward (snn s))"
    by (rule project_and_update_SomeD)
  then show ?thesis
    by (simp add: Suc update_solution_def)
qed

text \<open>
  Claim C7: \<open>update_solution\<close> replaces the tracked solution and leaves every other field
  of the energy functional as it is. In a run of the greedy loop, after an iteration the
  tracked solution is the forward pass of the network as updated in that iteration, and
  in every later state of the run the entries of the two error histories recorded at
  iteration \<open>j\<close> are still the square roots of the two values that \<open>energy_error()\<close> returned
  at the start of iteration \<open>j\<close>, for the tracked solution of that time.
\<close>

theorem update_solution_not_retroactive:
  assumes run: "oga_after solve dict en h net m = Some s'" and j: "j < m"
  shows "sigma (update_solution e f) = sigma e \<and> dsigma (update_solution e f) = dsigma e \<and>
         quadpts (update_solution e f) = quadpts e \<and> weights (update_solution e f) = weights e \<and>
         area (update_solution e f) = area e \<and>
         source_data (update_solution e f) = source_data e \<and>
         pde (update_solution e f) = pde e \<and> device (update_solution e f) = device e \<and>
         parallel_evaluation (update_solution e f) = parallel_evaluation e \<and>
         pre_solution (update_solution e f) = f \<and>
         pre_solution (energy_obj s') = forward (snn s') \<and>
         (\<exists>s errors e1 h1.
            oga_after solve dict en h net j = Some s \<and>
            energy_error (energy_obj s) (store s) = Some (errors, e1, h1) \<and>
            (\<forall>c. entry (errl2_record s') j c = sqrt (fst errors) \<and>
                 entry (errh1_record s') j c = sqrt (snd errors)))"
proof -
  let ?N = "nrows (data (h ! quadpts en))"
  have tracked: "pre_solution (energy_obj s') = forward (snn s')"
    using oga_after_tracked[OF run] j by simp
  from run j obtain u where u: "oga_after solve dict en h net (Suc j) = Some u"
    using oga_after_split[OF run, of "Suc j"] by auto
  then obtain s where s: "oga_after solve dict en h net j = Some s"
    and it: "oga_iteration solve dict (geo_dim dict) ?N j s = Some u"
    by (auto simp: oga_after_Suc bind_eq_Some_conv)
  from it obtain s1 sys where
    a: "select_and_assemble dict (geo_dim dict) ?N j s = Some (s1, sys)"
    and p: "project_and_update solve (geo_dim dict) j (s1, sys) = Some u"
    by (auto simp: oga_iteration_def bind_eq_Some_conv)
  from a obtain errors where
    err: "energy_error (energy_obj s) (store s) = Some (errors, energy_obj s1, store s1)"
    and w2: "t_fill_row (errl2_record s) j (sqrt (fst errors)) = Some (errl2_record s1)"
    and w1: "t_fill_row (errh1_record s) j (sqrt (snd errors)) = Some (errh1_record s1)"
    by (rule select_and_assemble_SomeD)
  from p have same: "errl2_record u = errl2_record s1" "errh1_record u = errh1_record s1"
    by (rule project_and_update_SomeD, simp)+
  have "history_kept (Suc j) u s'"
    using oga_after_kept[OF u run] j by simp
  then have k2: "entry (errl2_record s') j c = entry (errl2_record u) j c"
    and k1: "entry (errh1_record s') j c = entry (errh1_record u) j c" for c
    by (simp_all add: history_kept_def rows_kept_def)
  have "\<forall>c. entry (errl2_record s') j c = sqrt (fst errors) \<and>
            entry (errh1_record s') j c = sqrt (snd errors)"
    by (simp add: k1 k2 same t_fill_row_written[OF w2] t_fill_row_written[OF w1])
  with s err tracked show ?thesis
    by (auto simp: update_solution_def)
qed

section \<open>When the first half of an iteration returns\<close>

text \<open>
  With well-shaped data (a weight and a source value per quadrature point, callables that
  return a value per point, containers of the shapes the loop creates) the error
  evaluation, the assembly and the whole first half of an iteration return, provided the
  dictionary returns an element.
\<close>

lemma quadrature_sum_returns:
  assumes "nrows item = nrows (weights e)" and "ncols (weights e) = 1"
  shows "\<exists>q. quadrature_sum e item = Some q"
  using assms by (simp add: quadrature_sum_def t_mul_def t_binop_def bdim_def t_pow2_def t_map_def)

lemma get_error_returns:
  assumes "jets_at (solution (pde e)) p" and "jets_at (pre_solution e) p"
  shows "\<exists>v g s k. get_error e p = Some (v, g, s, k) \<and> 2 \<le> k \<and> nrows v = nrows p \<and>
           nrows g = nrows p \<and> nrows s = nrows p"
proof -
  from assms(1) obtain sv sg sh sk where
    s: "solution (pde e) p = Some (sv, sg, sh, sk)" "2 \<le> sk" "nrows sv = nrows p" "ncols sv = 1"
      "nrows sg = nrows p" "ncols sg = ncols p" "nrows sh = nrows p" "ncols sh = ncols p"
    unfolding jets_at_def by blast
  from assms(2) obtain uv ug uh uk where
    u: "pre_solution e p = Some (uv, ug, uh, uk)" "nrows uv = nrows p" "ncols uv = 1"
      "nrows ug = nrows p" "ncols ug = ncols p" "nrows uh = nrows p" "ncols uh = ncols p"
    unfolding jets_at_def by blast
  show ?thesis
    using s u
    by (simp add: get_error_def t_sub_def t_binop_def bdim_def t_scale_def t_map_def Let_def)
qed

lemma energy_error_returns:
  assumes q: "quadpts e < length h"
    and sol: "jets_at (solution (pde e)) (data (h ! quadpts e))"
    and pre: "jets_at (pre_solution e) (data (h ! quadpts e))"
    and W: "nrows (weights e) = nrows (data (h ! quadpts e))" "ncols (weights e) = 1"
  shows "\<exists>l2 en. energy_error e h
           = Some ((l2, en), e\<lparr>quadpts := length h\<rparr>, store_after h (quadpts e))"
proof -
  from get_error_returns[OF sol pre] obtain v g s k where
    f: "get_error e (data (h ! quadpts e)) = Some (v, g, s, k)" and k: "2 \<le> k"
    and sh: "nrows v = nrows (data (h ! quadpts e))" "nrows g = nrows (data (h ! quadpts e))"
      "nrows s = nrows (data (h ! quadpts e))"
    by blast
  obtain q0 q1 q2 where "quadrature_sum e v = Some q0" "quadrature_sum e g = Some q1"
    "quadrature_sum e s = Some q2"
    using quadrature_sum_returns[of _ e] sh W by metis
  then show ?thesis
    unfolding energy_error_def energy_norm_iff using q f k by blast
qed

lemma get_stiffmat_and_rhs_returns:
  assumes "nrows P = nrows C" and "nrows (weights e) = ncols C" and "ncols (weights e) = 1"
    and "nrows (source_data e) = ncols C"
  shows "\<exists>G b. get_stiffmat_and_rhs e P C = Some (G, b)"
  using assms
  by (simp add: get_stiffmat_and_rhs_def Let_def t_mul_def t_add_def t_binop_def bdim_def
      t_mm_def t_T_def t_map_def t_scale_def t_cols_def)

lemma t_set_shape: "t_set A k d x = Some A' \<Longrightarrow> nrows A' = nrows A \<and> ncols A' = ncols A"
  by (auto simp: t_set_def split: if_splits)

lemma update_parameter_list_returns:
  "k < nrows A \<Longrightarrow> (\<forall>d\<in>set ds. d < ncols A \<and> d < length opt) \<Longrightarrow>
     \<exists>A'. update_parameter_list A k opt ds = Some A'"
proof (induction ds arbitrary: A)
  case Nil
  then show ?case by simp
next
  case (Cons d ds)
  then obtain B where B: "t_set A k d (opt ! d) = Some B"
    by (auto simp: t_set_def)
  have "\<exists>A'. update_parameter_list B k opt ds = Some A'"
    using Cons.IH[of B] Cons.prems t_set_shape[OF B] by simp
  then show ?case
    using B Cons.prems by simp
qed

lemma select_and_assemble_returns:
  assumes q: "quadpts (energy_obj st) < length (store st)"
    and pts: "nrows (data (store st ! quadpts (energy_obj st))) = N"
      "ncols (data (store st ! quadpts (energy_obj st))) = gdim"
    and sol: "jets_at (solution (pde (energy_obj st))) (data (store st ! quadpts (energy_obj st)))"
    and pre: "jets_at (pre_solution (energy_obj st)) (data (store st ! quadpts (energy_obj st)))"
    and W: "nrows (weights (energy_obj st)) = N" "ncols (weights (energy_obj st)) = 1"
    and S: "nrows (source_data (energy_obj st)) = N"
    and rec: "k < nrows (errl2_record st)" "k < nrows (errh1_record st)"
    and par: "k < nrows (inner_param st)" "ncols (inner_param st) = gdim + 1"
    and core: "nrows (core_mat st) = nrows (inner_param st)" "ncols (core_mat st) = N"
    and dict: "find_optimal_element dict ((energy_obj st)\<lparr>quadpts := length (store st)\<rparr>)
                 (store_after (store st) (quadpts (energy_obj st))) = Some opt"
      "gdim < length opt"
  shows "\<exists>st1 G b. select_and_assemble dict gdim N k st = Some (st1, G, b)"
proof -
  let ?e = "energy_obj st" and ?h = "store st"
  let ?e1 = "?e\<lparr>quadpts := length ?h\<rparr>" and ?h1 = "store_after ?h (quadpts ?e)"
  obtain l2 en where err: "energy_error ?e ?h = Some ((l2, en), ?e1, ?h1)"
    using energy_error_returns[OF q sol pre] pts W by auto
  obtain r2 where r2: "t_fill_row (errl2_record st) k (sqrt l2) = Some r2"
    using rec by (simp add: t_fill_row_def)
  obtain r1 where r1: "t_fill_row (errh1_record st) k (sqrt en) = Some r1"
    using rec by (simp add: t_fill_row_def)
  obtain ip where ip: "update_parameter_list (inner_param st) k opt [0..<gdim + 1] = Some ip"
    using update_parameter_list_returns[of k "inner_param st" "[0..<gdim + 1]" opt] par dict(2)
    by auto
  have ips: "nrows ip = nrows (inner_param st)" "ncols ip = gdim + 1"
    using update_parameter_list_kept[OF ip, of 0] par by (simp_all add: rows_kept_def)
  have p1: "data (?h1 ! length ?h) = data (?h ! quadpts ?e)"
    using q by (rule store_after_points)
  have "\<exists>Bk. t_cat1 (data (?h1 ! quadpts ?e1)) (t_ones N 1) = Some Bk \<and> nrows Bk = N \<and>
          ncols Bk = gdim + 1"
    using pts by (simp add: p1 t_cat1_def t_ones_def)
  then obtain Bk where Bk: "t_cat1 (data (?h1 ! quadpts ?e1)) (t_ones N 1) = Some Bk"
    and Bks: "nrows Bk = N" "ncols Bk = gdim + 1"
    by blast
  have "\<exists>Ck. t_mm (t_reshape_row (t_rows ip k (k + 1))) (t_T Bk) = Some Ck \<and> nrows Ck = 1 \<and>
          ncols Ck = N"
    using par ips Bks by (simp add: t_mm_def t_reshape_row_def t_rows_def t_T_def min_def)
  then obtain Ck where Ck: "t_mm (t_reshape_row (t_rows ip k (k + 1))) (t_T Bk) = Some Ck"
    and Cks: "nrows Ck = 1" "ncols Ck = N"
    by blast
  obtain cm where cm: "t_set_row (core_mat st) k Ck = Some cm"
    using Cks core by (simp add: t_set_row_def fits_def)
  have cms: "nrows cm = nrows (core_mat st)" "ncols cm = N"
    using t_set_row_kept[OF cm, of 0] core by (simp_all add: rows_kept_def)
  obtain G b where sys: "get_stiffmat_and_rhs ?e1 (t_rows ip 0 (k + 1)) (t_rows cm 0 (k + 1))
      = Some (G, b)"
    using get_stiffmat_and_rhs_returns[of "t_rows ip 0 (k + 1)" "t_rows cm 0 (k + 1)" ?e1]
      W S ips cms core by (auto simp: t_rows_def)
  show ?thesis
    using err r2 r1 dict(1) ip Bk Ck cm sys
    by (simp add: select_and_assemble_def Let_def)
qed

lemma points_kept_trans: "points_kept a b \<Longrightarrow> points_kept b c \<Longrightarrow> points_kept a c"
  by (simp add: points_kept_def)

lemma select_and_assemble_points:
  assumes "select_and_assemble dict gdim N k st = Some (st1, sys)"
  shows "points_kept st st1"
proof -
  from assms obtain errors where
    "energy_error (energy_obj st) (store st) = Some (errors, energy_obj st1, store st1)"
    by (rule select_and_assemble_SomeD)
  then show ?thesis
    by (cases errors)
      (auto simp: energy_error_def energy_norm_iff points_kept_def store_after_points
        length_store_after)
qed

lemma project_and_update_points:
  assumes "project_and_update solve gdim k (st1, sys) = Some st2" and "points_kept a st1"
  shows "points_kept a st2"
proof -
  from assms(1) have "store st2 = store st1"
    and "energy_obj st2 = update_solution (energy_obj st1) (forward (snn st2))"
    by (rule project_and_update_SomeD, simp)+
  with assms(2) show ?thesis
    by (simp add: points_kept_def update_solution_def)
qed

lemma oga_iteration_points:
  assumes "oga_iteration solve dict gdim N k st = Some st2"
  shows "points_kept st st2"
proof -
  from assms obtain st1 sys where
    a: "select_and_assemble dict gdim N k st = Some (st1, sys)"
    and b: "project_and_update solve gdim k (st1, sys) = Some st2"
    by (auto simp: oga_iteration_def bind_eq_Some_conv)
  show ?thesis
    using project_and_update_points[OF b select_and_assemble_points[OF a]] .
qed

lemma oga_loop_points:
  "oga_loop solve dict gdim N ks st = Some st' \<Longrightarrow>
     quadpts (energy_obj st) < length (store st) \<Longrightarrow> points_kept st st'"
proof (induction ks arbitrary: st)
  case Nil
  then show ?case by (simp add: points_kept_def)
next
  case (Cons k ks)
  from Cons.prems(1) obtain st1 where
    a: "oga_iteration solve dict gdim N k st = Some st1"
    and b: "oga_loop solve dict gdim N ks st1 = Some st'"
    by (auto simp: bind_eq_Some_conv)
  have p: "points_kept st st1"
    using oga_iteration_points[OF a] .
  then have "quadpts (energy_obj st1) < length (store st1)"
    by (simp add: points_kept_def)
  from p Cons.IH[OF b this] show ?case
    by (rule points_kept_trans)
qed

lemma oga_after_points:
  assumes "oga_after solve dict en h net m = Some s"
  shows "quadpts (energy_obj s) < length (store s)"
    and "data (store s ! quadpts (energy_obj s)) = data (h ! quadpts en)"
proof -
  from assms have q: "quadpts en < length h"
    and l: "oga_loop solve dict (geo_dim dict) (nrows (data (h ! quadpts en))) [0..<m]
              (oga_start dict en h net) = Some s"
    by (auto simp: oga_after_def split: if_splits)
  have "points_kept (oga_start dict en h net) s"
    using oga_loop_points[OF l] q by (simp add: oga_start_def Let_def)
  then show "quadpts (energy_obj s) < length (store s)"
    and "data (store s ! quadpts (energy_obj s)) = data (h ! quadpts en)"
    by (simp_all add: points_kept_def oga_start_def Let_def)
qed

lemma oga_after_network:
  assumes "oga_after solve dict en h net m = Some s"
  shows "forward_pass (snn s) = forward_pass net" and "num_neurons (snn s) = num_neurons net"
proof -
  from assms have "history_kept 0 (oga_start dict en h net) s"
    by (auto simp: oga_after_def intro: oga_loop_kept split: if_splits)
  then show "forward_pass (snn s) = forward_pass net" and "num_neurons (snn s) = num_neurons net"
    by (simp_all add: history_kept_def oga_start_def Let_def)
qed

section \<open>The system of an iteration\<close>

text \<open>
  What the first half of iteration \<open>k\<close> leaves in the containers, and the entries of the
  system it assembles, in terms of the parameter history and the quadrature points.
\<close>

lemma t_set_row_SomeD:
  assumes "t_set_row A k V = Some A'"
  shows "entry A' i j = (if i = k \<and> i < nrows A \<and> j < ncols A
                          then entry V 0 (bidx (ncols V) j) else entry A i j)"
  using assms by (auto simp: t_set_row_def split: if_splits)

lemma core_row_written:
  assumes a: "select_and_assemble dict gdim N k st = Some (st1, sys)"
    and par: "k < nrows (inner_param st)" "ncols (inner_param st) = gdim + 1"
    and core: "k < nrows (core_mat st)" "ncols (core_mat st) = N"
  shows "ncols (data (store st ! quadpts (energy_obj st))) = gdim"
    and "nrows (data (store st ! quadpts (energy_obj st))) = N"
    and "n < N \<Longrightarrow> entry (core_mat st1) k n
           = preactivation gdim (inner_param st1) (data (store st ! quadpts (energy_obj st))) k n"
proof -
  let ?X = "data (store st ! quadpts (energy_obj st))"
  let ?P = "inner_param st1"
  let ?A = "t_reshape_row (t_rows ?P k (k + 1))"
  have pk: "data (store st1 ! quadpts (energy_obj st1)) = ?X"
    using select_and_assemble_points[OF a] by (simp add: points_kept_def)
  from a obtain opt Bk Ck where
    u: "update_parameter_list (inner_param st) k opt [0..<gdim + 1] = Some ?P"
    and Bk: "t_cat1 (data (store st1 ! quadpts (energy_obj st1))) (t_ones N 1) = Some Bk"
    and Ck: "t_mm ?A (t_T Bk) = Some Ck"
    and w: "t_set_row (core_mat st) k Ck = Some (core_mat st1)"
    by (rule select_and_assemble_SomeD)
  have ips: "nrows ?P = nrows (inner_param st)" "ncols ?P = gdim + 1"
    using update_parameter_list_kept[OF u, of 0] par by (simp_all add: rows_kept_def)
  from Bk show Xr: "nrows ?X = N"
    by (auto simp: pk t_cat1_def t_ones_def split: if_splits)
  from Bk have Bks: "nrows Bk = N" "ncols Bk = ncols ?X + 1"
    and Bke: "\<And>i j. entry Bk i j = (if j < ncols ?X then entry ?X i j else 1)"
    by (auto simp: pk t_cat1_def t_ones_def split: if_splits)
  note dC = t_mm_SomeD[OF Ck]
  have Ac: "ncols ?A = gdim + 1"
    using par ips by (simp add: t_reshape_row_def t_rows_def min_def)
  show X: "ncols ?X = gdim"
    using dC(1) Ac by (simp add: t_T_def Bks)
  have Cc: "ncols Ck = N"
    using dC(3) by (simp add: t_T_def Bks)
  have "entry Ck 0 n = (\<Sum>m<gdim + 1. entry ?P k m * (if m < gdim then entry ?X n m else 1))"
    unfolding dC(4) Ac
    by (rule sum.cong[OF refl]) (simp add: t_reshape_row_def t_rows_def t_T_def Bke X ips)
  also have "\<dots> = preactivation gdim ?P ?X k n"
    by (simp add: preactivation_def)
  finally have Ce: "entry Ck 0 n = preactivation gdim ?P ?X k n" .
  assume "n < N"
  then have "entry (core_mat st1) k n = entry Ck 0 n"
    using core by (simp add: t_set_row_SomeD[OF w] Cc bidx_less)
  with Ce show "entry (core_mat st1) k n = preactivation gdim ?P ?X k n"
    by simp
qed

lemma preactivation_rows:
  "(\<And>d. entry P' i d = entry P i d) \<Longrightarrow> preactivation gdim P' X i n = preactivation gdim P X i n"
  by (simp add: preactivation_def)

lemma bilinear_entry_form:
  assumes sd: "same_discretisation e e'"
    and ci: "\<And>n. n < nrows X \<Longrightarrow> entry C i n = preactivation gdim P X i n"
    and cj: "\<And>n. n < nrows X \<Longrightarrow> entry C j n = preactivation gdim P X j n"
    and C: "ncols C = nrows X" and W: "nrows (weights e) = nrows X"
    and P: "0 < ncols P'" "entry P' i 0 = entry P i 0" "entry P' j 0 = entry P j 0"
  shows "bilinear_entry e' P' C i j = stiffness_form e gdim P X i j"
proof -
  have e: "sigma e' = sigma e" "dsigma e' = dsigma e" "weights e' = weights e" "area e' = area e"
    using sd by (simp_all add: same_discretisation_def)
  have m: "min 1 (ncols P') = 1"
    using P(1) by simp
  have s1: "(\<Sum>n<nrows X. dsigma e (entry C i n) 2 *
               (dsigma e (entry C j n) 2 * entry (weights e) (bidx (nrows X) n) 0))
      = (\<Sum>n<nrows X. dsigma e (preactivation gdim P X i n) 2
                    * dsigma e (preactivation gdim P X j n) 2 * entry (weights e) n 0)"
    by (rule sum.cong[OF refl]) (simp add: ci cj bidx_less)
  have s2: "(\<Sum>n<nrows X. sigma e (entry C i n) *
               (sigma e (entry C j n) * entry (weights e) (bidx (nrows X) n) 0))
      = (\<Sum>n<nrows X. sigma e (preactivation gdim P X i n)
                    * sigma e (preactivation gdim P X j n) * entry (weights e) n 0)"
    by (rule sum.cong[OF refl]) (simp add: ci cj bidx_less)
  show ?thesis
    unfolding bilinear_entry_def stiffness_form_def e C W m s1 s2
    by (simp add: P power2_eq_square)
qed

lemma rhs_entries:
  assumes run: "get_stiffmat_and_rhs e P C = Some (G, b)"
    and W: "nrows (weights e) = ncols C" "ncols (weights e) = 1"
    and F: "nrows (source_data e) = ncols C" "ncols (source_data e) = 1"
  shows "ncols b = 1"
    and "entry b i 0 = (\<Sum>n<ncols C. sigma e (entry C i n)
                           * (entry (source_data e) n 0 * entry (weights e) n 0)) * area e"
proof -
  let ?g1 = "t_map (sigma e) C"
  from run obtain f b0 where
    f: "t_binop (\<lambda>x y. x * y) (source_data e) (weights e) = Some f"
    and b0: "t_mm ?g1 f = Some b0"
    and b: "b = t_scale b0 (area e)"
    by (auto simp: get_stiffmat_and_rhs_def Let_def bind_eq_Some_conv t_mul_def t_add_def)
  note df = t_binop_SomeD[OF f]
  note db = t_mm_SomeD[OF b0]
  have fc: "ncols f = 1"
    using df(2) W F by (simp add: bdim_def)
  show "ncols b = 1"
    using db(3) fc by (simp add: b t_scale_def t_map_def)
  have "entry b0 i 0 = (\<Sum>n<ncols C. sigma e (entry C i n)
                           * (entry (source_data e) n 0 * entry (weights e) n 0))"
    unfolding db(4)
    by (rule sum.cong) (simp_all add: t_map_def df(3) W F bidx_less bidx_one)
  then show "entry b i 0 = (\<Sum>n<ncols C. sigma e (entry C i n)
                           * (entry (source_data e) n 0 * entry (weights e) n 0)) * area e"
    by (simp add: b t_scale_def t_map_def)
qed

lemma selection_written:
  assumes a: "select_and_assemble dict gdim N k st = Some (st1, sys)"
  shows "\<exists>errors optimal_element.
           energy_error (energy_obj st) (store st) = Some (errors, energy_obj st1, store st1) \<and>
           find_optimal_element dict (energy_obj st1) (store st1) = Some optimal_element \<and>
           (\<forall>d\<le>gdim. entry (inner_param st1) k d = optimal_element ! d)"
  using a
proof (rule select_and_assemble_SomeD)
  fix errors opt
  assume e: "energy_error (energy_obj st) (store st) = Some (errors, energy_obj st1, store st1)"
    and f: "find_optimal_element dict (energy_obj st1) (store st1) = Some opt"
    and u: "update_parameter_list (inner_param st) k opt [0..<gdim + 1] = Some (inner_param st1)"
  have "entry (inner_param st1) k d = opt ! d" if "d \<le> gdim" for d
  proof (rule update_parameter_list_written[OF u])
    show "distinct [0..<gdim + 1]" by simp
    show "d \<in> set [0..<gdim + 1]" using that by auto
  qed
  with e f show ?thesis by blast
qed

lemma iteration_history:
  assumes s: "oga_after solve dict en h net k = Some s"
    and a: "select_and_assemble dict (geo_dim dict) (nrows (data (h ! quadpts en))) k s
              = Some (s1, sys)"
    and i: "i \<le> k"
  obtains si ti sysi where
    "oga_after solve dict en h net i = Some si"
    "select_and_assemble dict (geo_dim dict) (nrows (data (h ! quadpts en))) i si
       = Some (ti, sysi)"
    "history_kept (Suc i) ti s1"
proof (cases "i = k")
  case True
  show ?thesis
    using that[of s s1 sys] s a True by (simp add: history_kept_refl)
next
  case False
  let ?N = "nrows (data (h ! quadpts en))"
  from False i have less: "Suc i \<le> k" by simp
  from s less obtain u where u: "oga_after solve dict en h net (Suc i) = Some u"
    and l: "oga_loop solve dict (geo_dim dict) ?N [Suc i..<k] u = Some s"
    using oga_after_split[OF s, of "Suc i"] by auto
  from u obtain si where si: "oga_after solve dict en h net i = Some si"
    and it: "oga_iteration solve dict (geo_dim dict) ?N i si = Some u"
    by (auto simp: oga_after_Suc bind_eq_Some_conv)
  from it obtain ti sysi where
    ai: "select_and_assemble dict (geo_dim dict) ?N i si = Some (ti, sysi)"
    and p: "project_and_update solve (geo_dim dict) i (ti, sysi) = Some u"
    by (auto simp: oga_iteration_def bind_eq_Some_conv)
  have "history_kept (Suc i) ti u"
    using project_and_update_kept[OF p] .
  moreover have "history_kept (Suc i) u s"
    using oga_loop_kept[OF l, of "Suc i"] by simp
  moreover have "history_kept (Suc i) s s1"
    using select_and_assemble_kept[OF a, of "Suc i"] less by simp
  ultimately have "history_kept (Suc i) ti s1"
    by (meson history_kept_trans)
  with si ai show ?thesis by (rule that)
qed

lemma assembled_system:
  assumes s: "oga_after solve dict en h net k = Some s"
    and a: "select_and_assemble dict (geo_dim dict) (nrows (data (h ! quadpts en))) k s
              = Some (s1, Gk, bk)"
    and W: "nrows (weights en) = nrows (data (h ! quadpts en))" "ncols (weights en) = 1"
    and F: "nrows (source_data en) = nrows (data (h ! quadpts en))" "ncols (source_data en) = 1"
  shows "i \<le> k \<Longrightarrow> \<exists>si errors ei hi optimal_element.
            oga_after solve dict en h net i = Some si \<and>
            energy_error (energy_obj si) (store si) = Some (errors, ei, hi) \<and>
            find_optimal_element dict ei hi = Some optimal_element \<and>
            (\<forall>d\<le>geo_dim dict. entry (inner_param s1) i d = optimal_element ! d)"
    and "i \<le> k \<Longrightarrow> n < nrows (data (h ! quadpts en)) \<Longrightarrow>
           entry (core_mat s1) i n
             = preactivation (geo_dim dict) (inner_param s1) (data (h ! quadpts en)) i n"
    and "nrows Gk = k + 1" and "ncols Gk = k + 1" and "nrows bk = k + 1" and "ncols bk = 1"
    and "i \<le> k \<Longrightarrow> j \<le> k \<Longrightarrow>
           entry Gk i j
             = stiffness_form en (geo_dim dict) (inner_param s1) (data (h ! quadpts en)) i j"
    and "i \<le> k \<Longrightarrow>
           entry bk i 0 = load_form en (geo_dim dict) (inner_param s1) (data (h ! quadpts en)) i"
proof -
  let ?X = "data (h ! quadpts en)"
  let ?N = "nrows ?X"
  let ?g = "geo_dim dict"
  let ?P = "t_rows (inner_param s1) 0 (k + 1)"
  let ?C = "t_rows (core_mat s1) 0 (k + 1)"
  note y = select_and_assemble_system[OF s a W(2)]
  note sh = oga_after_shapes[OF s]
  have hk0: "history_kept 0 s s1"
    using select_and_assemble_kept[OF a, of 0] by simp
  have sd: "same_discretisation en (energy_obj s1)"
    using sh(9) hk0 same_discretisation_trans by (auto simp: history_kept_def)
  have e: "sigma (energy_obj s1) = sigma en" "weights (energy_obj s1) = weights en"
    "area (energy_obj s1) = area en" "source_data (energy_obj s1) = source_data en"
    using sd by (simp_all add: same_discretisation_def)
  have shapes: "ncols (core_mat s1) = ?N" "ncols (inner_param s1) = ?g + 1"
    using hk0 sh by (simp_all add: history_kept_def rows_kept_def)
  have rows: "\<exists>si ti sysi. oga_after solve dict en h net i = Some si \<and>
      select_and_assemble dict ?g ?N i si = Some (ti, sysi) \<and> history_kept (Suc i) ti s1"
    if "i \<le> k" for i
    using iteration_history[OF s a that] by blast
  have core: "entry (core_mat s1) i n = preactivation ?g (inner_param s1) ?X i n"
    if "i \<le> k" "n < ?N" for i n
  proof -
    from rows[OF that(1)] obtain si ti sysi where
      si: "oga_after solve dict en h net i = Some si"
      and ai: "select_and_assemble dict ?g ?N i si = Some (ti, sysi)"
      and hk: "history_kept (Suc i) ti s1"
      by blast
    note shi = oga_after_shapes[OF si]
    note pt = oga_after_points[OF si]
    have ik: "i < num_neurons net"
      using ai by (rule select_and_assemble_SomeD) (auto simp: t_fill_row_def shi split: if_splits)
    have "entry (core_mat ti) i n
        = preactivation ?g (inner_param ti) (data (store si ! quadpts (energy_obj si))) i n"
      by (rule core_row_written(3)[OF ai]) (simp_all add: shi ik that(2))
    then have c: "entry (core_mat ti) i n = preactivation ?g (inner_param ti) ?X i n"
      by (simp add: pt(2))
    have r: "\<And>d. entry (inner_param s1) i d = entry (inner_param ti) i d"
      "entry (core_mat s1) i n = entry (core_mat ti) i n"
      using hk by (simp_all add: history_kept_def rows_kept_def)
    show ?thesis
      using c r by (simp add: preactivation_def)
  qed
  show "\<exists>si errors ei hi optimal_element.
            oga_after solve dict en h net i = Some si \<and>
            energy_error (energy_obj si) (store si) = Some (errors, ei, hi) \<and>
            find_optimal_element dict ei hi = Some optimal_element \<and>
            (\<forall>d\<le>geo_dim dict. entry (inner_param s1) i d = optimal_element ! d)"
    if "i \<le> k"
  proof -
    from rows[OF that] obtain si ti sysi where
      si: "oga_after solve dict en h net i = Some si"
      and ai: "select_and_assemble dict ?g ?N i si = Some (ti, sysi)"
      and hk: "history_kept (Suc i) ti s1"
      by blast
    from selection_written[OF ai] obtain errors opt where
      o: "energy_error (energy_obj si) (store si) = Some (errors, energy_obj ti, store ti)"
      "find_optimal_element dict (energy_obj ti) (store ti) = Some opt"
      "\<forall>d\<le>?g. entry (inner_param ti) i d = opt ! d"
      by blast
    have "\<And>d. entry (inner_param s1) i d = entry (inner_param ti) i d"
      using hk by (simp add: history_kept_def rows_kept_def)
    with o(3) have "\<forall>d\<le>?g. entry (inner_param s1) i d = opt ! d"
      by simp
    with si o(1,2) show ?thesis by blast
  qed
  show "entry (core_mat s1) i n = preactivation ?g (inner_param s1) ?X i n"
    if "i \<le> k" "n < ?N"
    using core[OF that] .
  show "nrows Gk = k + 1" and "ncols Gk = k + 1"
    using y(5,6) .
  show "nrows bk = k + 1"
    using rhs_shape[OF y(2)] y(4) by simp
  have CW: "nrows (weights (energy_obj s1)) = ncols ?C" "ncols (weights (energy_obj s1)) = 1"
    "nrows (source_data (energy_obj s1)) = ncols ?C" "ncols (source_data (energy_obj s1)) = 1"
    using W F by (simp_all add: e t_rows_def shapes)
  show "ncols bk = 1"
    using rhs_entries(1)[OF y(2) CW] .
  show "entry Gk i j = stiffness_form en ?g (inner_param s1) ?X i j" if "i \<le> k" "j \<le> k"
  proof -
    have e1: "entry Gk i j = bilinear_entry (energy_obj s1) ?P ?C i j"
      using that y(3,4) by (intro stiffness_entries(3)[OF y(2) y(7)]) simp_all
    have "bilinear_entry (energy_obj s1) ?P ?C i j
        = stiffness_form en ?g (inner_param s1) ?X i j"
    proof (rule bilinear_entry_form[OF sd])
      show "entry ?C i n = preactivation ?g (inner_param s1) ?X i n" if "n < ?N" for n
        using core[OF \<open>i \<le> k\<close> that] by (simp add: t_rows_def)
      show "entry ?C j n = preactivation ?g (inner_param s1) ?X j n" if "n < ?N" for n
        using core[OF \<open>j \<le> k\<close> that] by (simp add: t_rows_def)
      show "ncols ?C = ?N" by (simp add: t_rows_def shapes)
      show "nrows (weights en) = ?N" by (rule W)
      show "0 < ncols ?P" by (simp add: t_rows_def shapes)
      show "entry ?P i 0 = entry (inner_param s1) i 0" by (simp add: t_rows_def)
      show "entry ?P j 0 = entry (inner_param s1) j 0" by (simp add: t_rows_def)
    qed
    with e1 show ?thesis by simp
  qed
  show "entry bk i 0 = load_form en ?g (inner_param s1) ?X i" if "i \<le> k"
  proof -
    have "(\<Sum>n<ncols ?C. sigma (energy_obj s1) (entry ?C i n)
             * (entry (source_data (energy_obj s1)) n 0 * entry (weights (energy_obj s1)) n 0))
        = (\<Sum>n<?N. sigma en (preactivation ?g (inner_param s1) ?X i n)
             * (entry (source_data en) n 0 * entry (weights en) n 0))"
      by (rule sum.cong) (simp_all add: t_rows_def shapes e core[OF that])
    then show ?thesis
      unfolding rhs_entries(2)[OF y(2) CW] load_form_def by (simp add: e)
  qed
qed

text \<open>
  Claim C1: at every iteration \<open>k\<close> of the greedy loop that completes, with a solver that
  returns a solution of the system it is given and a weight and a source value per
  quadrature point: for every \<open>i \<le> k\<close>, row \<open>i\<close> of the parameter history is the element that
  the dictionary returned at iteration \<open>i\<close>, and row \<open>i\<close> of the core matrix holds the
  pre-activations \<open>w\<^sub>i \<cdot> x\<^sub>n + b\<^sub>i\<close> of that neuron at the quadrature points. The stiffness
  matrix \<open>Gk\<close> is \<open>(k+1) \<times> (k+1)\<close> and its entry \<open>(i, j)\<close> is the discrete bilinear form of
  neurons \<open>i\<close> and \<open>j\<close> of this history; the load vector \<open>bk\<close> is a column of length \<open>k+1\<close>
  and its entry \<open>i\<close> is the load of neuron \<open>i\<close>. The coefficient vector \<open>coef\<close> is the solver's
  result for this system: a column of length \<open>k+1\<close> with \<open>Gk coef = bk\<close>. It overwrites all of
  the first \<open>k+1\<close> output weights, and the others are still zero.
\<close>

theorem coefficients_recomputed:
  assumes contract: "solver_contract solve"
    and s: "oga_after solve dict en h net k = Some s"
    and a: "select_and_assemble dict (geo_dim dict) (nrows (data (h ! quadpts en))) k s
              = Some (s1, Gk, bk)"
    and n: "oga_after solve dict en h net (Suc k) = Some s2"
    and W: "nrows (weights en) = nrows (data (h ! quadpts en))" "ncols (weights en) = 1"
    and F: "nrows (source_data en) = nrows (data (h ! quadpts en))" "ncols (source_data en) = 1"
  shows "(\<forall>i\<le>k. \<exists>si errors ei hi optimal_element.
            oga_after solve dict en h net i = Some si \<and>
            energy_error (energy_obj si) (store si) = Some (errors, ei, hi) \<and>
            find_optimal_element dict ei hi = Some optimal_element \<and>
            (\<forall>d\<le>geo_dim dict. entry (inner_param s1) i d = optimal_element ! d)) \<and>
         (\<forall>i\<le>k. \<forall>n<nrows (data (h ! quadpts en)).
            entry (core_mat s1) i n
              = preactivation (geo_dim dict) (inner_param s1) (data (h ! quadpts en)) i n) \<and>
         get_stiffmat_and_rhs (energy_obj s1) (t_rows (inner_param s1) 0 (k + 1))
            (t_rows (core_mat s1) 0 (k + 1)) = Some (Gk, bk) \<and>
         nrows Gk = k + 1 \<and> ncols Gk = k + 1 \<and> nrows bk = k + 1 \<and> ncols bk = 1 \<and>
         (\<forall>i\<le>k. \<forall>j\<le>k.
            entry Gk i j
              = stiffness_form en (geo_dim dict) (inner_param s1) (data (h ! quadpts en)) i j) \<and>
         (\<forall>i\<le>k.
            entry bk i 0
              = load_form en (geo_dim dict) (inner_param s1) (data (h ! quadpts en)) i) \<and>
         (\<exists>coef. galerkin_projection solve (Gk, bk) = Some coef \<and>
            nrows coef = k + 1 \<and> ncols coef = 1 \<and> solves Gk coef bk \<and>
            (\<forall>j\<le>k. entry (outer_param s2) 0 j = entry coef j 0) \<and>
            (\<forall>j>k. entry (outer_param s2) 0 j = 0))"
proof -
  let ?N = "nrows (data (h ! quadpts en))"
  note sh = oga_after_shapes[OF s]
  note sys = assembled_system[OF s a W F]
  from a have k: "k < num_neurons net"
    by (rule select_and_assemble_SomeD) (auto simp: t_fill_row_def sh split: if_splits)
  have asm: "get_stiffmat_and_rhs (energy_obj s1) (t_rows (inner_param s1) 0 (k + 1))
            (t_rows (core_mat s1) 0 (k + 1)) = Some (Gk, bk)"
    using select_and_assemble_system(2)[OF s a W(2)] .
  from n s have "oga_iteration solve dict (geo_dim dict) ?N k s = Some s2"
    by (simp add: oga_after_Suc)
  with a have p: "project_and_update solve (geo_dim dict) k (s1, Gk, bk) = Some s2"
    by (simp add: oga_iteration_def)
  from a have o1: "outer_param s1 = outer_param s"
    by (rule select_and_assemble_SomeD)
  from p obtain coef where
    c: "galerkin_projection solve (Gk, bk) = Some coef"
    and w: "t_set_cols (outer_param s1) (k + 1) (t_reshape_row coef) = Some (outer_param s2)"
    by (rule project_and_update_SomeD)
  from c contract have shape: "nrows coef = nrows bk" "ncols coef = ncols bk"
    and sol: "solves Gk coef bk"
    by (auto simp: galerkin_projection_def solver_contract_def)
  have one: "ncols coef = 1" and nc: "nrows coef = k + 1"
    using shape sys(5,6) by simp_all
  have o: "nrows (outer_param s1) = 1" "ncols (outer_param s1) = num_neurons net"
    using sh o1 by simp_all
  have ent: "entry (outer_param s2) i j =
          (if i < 1 \<and> j < k + 1
           then entry (t_reshape_row coef) (bidx (nrows (t_reshape_row coef)) i)
                  (bidx (ncols (t_reshape_row coef)) j)
           else entry (outer_param s1) i j)" for i j
    using t_set_cols_SomeD(2)[OF w, of i j] k by (simp add: o min_def)
  have low: "\<forall>j\<le>k. entry (outer_param s2) 0 j = entry coef j 0"
    by (simp add: ent t_reshape_row_def one nc bidx_less bidx_one)
  have high: "\<forall>j>k. entry (outer_param s2) 0 j = 0"
    using oga_after_outer_zero[OF n] by simp
  have "\<exists>coef. galerkin_projection solve (Gk, bk) = Some coef \<and>
            nrows coef = k + 1 \<and> ncols coef = 1 \<and> solves Gk coef bk \<and>
            (\<forall>j\<le>k. entry (outer_param s2) 0 j = entry coef j 0) \<and>
            (\<forall>j>k. entry (outer_param s2) 0 j = 0)"
    using c nc one sol low high by blast
  with sys asm show ?thesis by blast
qed

text \<open>The store grows by one object per iteration; when the second half returns.\<close>

lemma energy_error_store_length:
  "energy_error e h = Some (r, e', h') \<Longrightarrow> length h' = Suc (length h)"
  by (cases r) (auto simp: energy_error_def energy_norm_iff length_store_after)

lemma oga_after_store_length:
  "oga_after solve dict en h net m = Some s \<Longrightarrow> length (store s) = length h + m"
proof (induction m arbitrary: s)
  case 0
  then show ?case
    by (auto simp: oga_after_def oga_start_def Let_def split: if_splits)
next
  case (Suc m)
  let ?N = "nrows (data (h ! quadpts en))"
  from Suc.prems obtain s0 where s0: "oga_after solve dict en h net m = Some s0"
    and it: "oga_iteration solve dict (geo_dim dict) ?N m s0 = Some s"
    by (auto simp: oga_after_Suc bind_eq_Some_conv)
  from it obtain s1 sys where
    a: "select_and_assemble dict (geo_dim dict) ?N m s0 = Some (s1, sys)"
    and p: "project_and_update solve (geo_dim dict) m (s1, sys) = Some s"
    by (auto simp: oga_iteration_def bind_eq_Some_conv)
  from a obtain errors where
    "energy_error (energy_obj s0) (store s0) = Some (errors, energy_obj s1, store s1)"
    by (rule select_and_assemble_SomeD)
  then have "length (store s1) = Suc (length (store s0))"
    by (rule energy_error_store_length)
  moreover from p have "store s = store s1"
    by (rule project_and_update_SomeD)
  ultimately show ?case
    using Suc.IH[OF s0] by simp
qed

lemma project_and_update_returns:
  assumes "solve G b = Some coef" and "nrows coef = k + 1" and "ncols coef = 1"
    and "nrows (outer_param st1) = 1" and "k < ncols (outer_param st1)"
  shows "\<exists>st2. project_and_update solve gdim k (st1, G, b) = Some st2"
  using assms
  by (simp add: project_and_update_def galerkin_projection_def Let_def t_set_cols_def fits_def
      t_reshape_row_def min_def)

section \<open>The initial tracked solution\<close>

lemma quadrature_sum_column:
  assumes "nrows item = N" and "ncols item = 1"
    and "nrows (weights self) = N" and "ncols (weights self) = 1"
  shows "quadrature_sum self item
           = Some ((\<Sum>i<N. (entry item i 0) ^ 2 * entry (weights self) i 0) * area self)"
proof -
  have "(\<Sum>i<N. \<Sum>j<Suc 0. (entry item (bidx N i) (bidx (Suc 0) j)) ^ 2
                * entry (weights self) (bidx N i) (bidx (Suc 0) j))
      = (\<Sum>i<N. (entry item i 0) ^ 2 * entry (weights self) i 0)"
    by (rule sum.cong[OF refl]) (simp add: bidx_less bidx_one)
  then show ?thesis
    using assms
    by (simp add: quadrature_sum_def t_mul_def t_binop_def bdim_def t_pow2_def t_map_def
        t_sum_def)
qed

lemma t_binop_same_shape:
  assumes "nrows A = nrows B" and "ncols A = ncols B"
  shows "\<exists>V. t_binop f A B = Some V \<and> nrows V = nrows A \<and> ncols V = ncols A \<and>
           (\<forall>i<nrows A. \<forall>j<ncols A. entry V i j = f (entry A i j) (entry B i j))"
  using assms by (simp add: t_binop_def bdim_def bidx_less)

lemma repeats_same_shape: "nrows V = nrows A \<Longrightarrow> ncols V = ncols A \<Longrightarrow> repeats A V = 1"
  by (simp add: repeats_def bcount_def)

text \<open>
  Claim C10: right after construction the tracked solution is \<open>_zero\<close>, whose value,
  gradient and Hessian are 0 at every point, and the first call of \<open>energy_error()\<close>
  returns the squared L2 norm of the exact solution of the PDE, the weighted quadrature
  sum of the squares of its values times the area, and its squared energy norm, the sum of
  the three such sums for its values, its gradient and its Hessian. The exact solution
  returns one value per quadrature point, and there is one weight per point.
\<close>

theorem initial_energy_error:
  assumes i: "init act quad prob dev par h0 = Some self"
    and q: "quadpts self < length h"
    and sol: "solution prob (data (h ! quadpts self)) = Some (sv, sg, sh, graph)"
    and pts: "nrows (data (h ! quadpts self)) = N" "ncols (data (h ! quadpts self)) = 1"
    and shapes: "nrows sv = N" "ncols sv = 1" "nrows sg = N" "ncols sg = 1"
      "nrows sh = N" "ncols sh = 1"
    and W: "nrows (weights self) = N" "ncols (weights self) = 1"
  shows "pre_solution self = zero_fn \<and>
         (\<forall>p. \<exists>v g s k. pre_solution self p = Some (v, g, s, k) \<and>
                (\<forall>i j. entry v i j = 0 \<and> entry g i j = 0 \<and> entry s i j = 0)) \<and>
         energy_error self h =
           Some (((\<Sum>i<N. (entry sv i 0) ^ 2 * entry (weights self) i 0) * area self,
                  (\<Sum>i<N. (entry sv i 0) ^ 2 * entry (weights self) i 0) * area self
                  + (\<Sum>i<N. (entry sg i 0) ^ 2 * entry (weights self) i 0) * area self
                  + (\<Sum>i<N. (entry sh i 0) ^ 2 * entry (weights self) i 0) * area self),
                 self\<lparr>quadpts := length h\<rparr>, store_after h (quadpts self))"
proof -
  let ?p = "data (h ! quadpts self)"
  have pre: "pre_solution self = zero_fn" and prob: "pde self = prob"
    using i by (auto simp: init_def split: if_splits)
  have z: "\<exists>v g s k. pre_solution self p = Some (v, g, s, k) \<and>
                (\<forall>i j. entry v i j = 0 \<and> entry g i j = 0 \<and> entry s i j = 0)" for p
    by (simp add: pre zero_fn_def t_map_def)
  define z0 where "z0 = t_map (\<lambda>x. 0 * sin x) ?p"
  define z1 where "z1 = t_map (\<lambda>x. 0 * cos x) ?p"
  define z2 where "z2 = t_map (\<lambda>x. 0 * (- sin x)) ?p"
  have zf: "pre_solution self ?p = Some (z0, z1, z2, 2)"
    by (simp add: pre zero_fn_def z0_def z1_def z2_def)
  have zs: "nrows z0 = N" "ncols z0 = 1" "nrows z1 = N" "ncols z1 = 1"
    "nrows z2 = N" "ncols z2 = 1"
    and ze: "\<And>i j. entry z0 i j = 0" "\<And>i j. entry z1 i j = 0" "\<And>i j. entry z2 i j = 0"
    using pts by (simp_all add: t_map_def z0_def z1_def z2_def)
  obtain v where v: "t_sub sv z0 = Some v" and vs: "nrows v = N" "ncols v = 1"
    and ev: "\<And>i. i < N \<Longrightarrow> entry v i 0 = entry sv i 0"
    using t_binop_same_shape[of sv z0 "\<lambda>x y. x - y"] shapes zs
    by (auto simp: t_sub_def ze)
  have r: "repeats sv v = 1" "repeats z0 v = 1"
    using vs shapes zs by (simp_all add: repeats_same_shape)
  obtain g where g: "t_sub (t_scale sg 1) (t_scale z1 1) = Some g"
    and gs: "nrows g = N" "ncols g = 1"
    and eg: "\<And>i. i < N \<Longrightarrow> entry g i 0 = entry sg i 0"
    using t_binop_same_shape[of "t_scale sg 1" "t_scale z1 1" "\<lambda>x y. x - y"] shapes zs
    by (auto simp: t_sub_def t_map_def t_scale_def ze)
  obtain s where s: "t_sub (t_scale sh 1) (t_scale z2 1) = Some s"
    and ss: "nrows s = N" "ncols s = 1"
    and es: "\<And>i. i < N \<Longrightarrow> entry s i 0 = entry sh i 0"
    using t_binop_same_shape[of "t_scale sh 1" "t_scale z2 1" "\<lambda>x y. x - y"] shapes zs
    by (auto simp: t_sub_def t_map_def t_scale_def ze)
  have f: "get_error self ?p = Some (v, g, s, max graph 2)"
    by (simp add: get_error_def prob sol zf v r g s)
  note sh = vs gs ss
  have q0: "quadrature_sum self v
      = Some ((\<Sum>i<N. (entry sv i 0) ^ 2 * entry (weights self) i 0) * area self)"
    using quadrature_sum_column[OF sh(1,2) W] ev by simp
  have q1: "quadrature_sum self g
      = Some ((\<Sum>i<N. (entry sg i 0) ^ 2 * entry (weights self) i 0) * area self)"
    using quadrature_sum_column[OF sh(3,4) W] eg by simp
  have q2: "quadrature_sum self s
      = Some ((\<Sum>i<N. (entry sh i 0) ^ 2 * entry (weights self) i 0) * area self)"
    using quadrature_sum_column[OF sh(5,6) W] es by simp
  have "energy_error self h =
           Some (((\<Sum>i<N. (entry sv i 0) ^ 2 * entry (weights self) i 0) * area self,
                  (\<Sum>i<N. (entry sv i 0) ^ 2 * entry (weights self) i 0) * area self
                  + (\<Sum>i<N. (entry sg i 0) ^ 2 * entry (weights self) i 0) * area self
                  + (\<Sum>i<N. (entry sh i 0) ^ 2 * entry (weights self) i 0) * area self),
                 self\<lparr>quadpts := length h\<rparr>, store_after h (quadpts self))"
    unfolding energy_error_def energy_norm_iff
    using q f q0 q1 q2 by simp
  with pre z show ?thesis by blast
qed


section \<open>The small instance\<close>

lemma ex_energy_eq:
  "ex_energy = \<lparr>sigma = activate ex_activation, dsigma = dactivate ex_activation,
                 quadpts = 0, weights = t_of_rows [[1 / 2], [1 / 2]], area = 1,
                 source_data = t_map (\<lambda>x. 1) ex_points, pde = ex_pde,
                 device = ''cpu'', pre_solution = zero_fn, parallel_evaluation = False\<rparr>"
  by (simp add: ex_energy_def init_def ex_quadrature_def ex_store_def ex_pde_def)

lemma ex_init:
  "init ex_activation ex_quadrature ex_pde ''cpu'' False ex_store = Some ex_energy"
  by (simp add: ex_energy_def init_def ex_quadrature_def ex_store_def)

lemmas tensor_defs = t_of_rows_def t_map_def t_mul_def t_add_def t_sub_def t_binop_def
  bdim_def bidx_def t_mm_def t_T_def t_pow2_def t_scale_def t_cols_def t_rows_def t_ones_def
  t_zeros_def t_cat1_def

lemma ex_stiff_returns: "get_stiffmat_and_rhs ex_energy ex_parameters ex_core \<noteq> None"
  by (simp add: get_stiffmat_and_rhs_def ex_energy_eq ex_parameters_def ex_core_def tensor_defs
      ex_points_def)

lemma ex_energy_error_returns: "energy_error ex_energy ex_store \<noteq> None"
  by (simp add: energy_error_def energy_norm_def get_energy_items_eq get_error_def ex_energy_eq
      ex_store_def ex_pde_def zero_fn_def repeats_def bcount_def ex_points_def tensor_defs store_after_def)

lemma ex_evaluate_returns: "evaluate ex_energy ex_store ex_param \<noteq> None"
  by (simp add: evaluate_def evaluate_residual_def get_energy_items_eq ex_energy_eq
      ex_store_def ex_param_def zero_fn_def ex_points_def tensor_defs store_after_def Let_def)

lemma ex_items_returns: "get_energy_items ex_energy ex_store zero_fn \<noteq> None"
  by (simp add: get_energy_items_eq ex_energy_eq ex_store_def zero_fn_def)

theorem stiffness_symmetric_witness:
  "ncols (weights ex_energy) = 1 \<and>
   get_stiffmat_and_rhs ex_energy ex_parameters ex_core \<noteq> None \<and>
   symmetric (fst (the (get_stiffmat_and_rhs ex_energy ex_parameters ex_core)))"
proof -
  have c: "ncols (weights ex_energy) = 1"
    by (simp add: ex_energy_eq t_of_rows_def)
  obtain G b where r: "get_stiffmat_and_rhs ex_energy ex_parameters ex_core = Some (G, b)"
    using ex_stiff_returns by auto
  show ?thesis
    using stiffness_symmetric[OF r c] c r by simp
qed

theorem energy_error_nonneg_witness:
  "positive_entries (weights ex_energy) \<and> 0 < area ex_energy \<and>
   energy_error ex_energy ex_store \<noteq> None \<and>
   0 \<le> fst (fst (the (energy_error ex_energy ex_store))) \<and>
   0 \<le> snd (fst (the (energy_error ex_energy ex_store)))"
proof -
  have W: "positive_entries (weights ex_energy)"
    by (auto simp: ex_energy_eq positive_entries_def t_of_rows_def less_Suc_eq)
  have A: "0 < area ex_energy"
    by (simp add: ex_energy_eq)
  obtain l2 en s h where r: "energy_error ex_energy ex_store = Some ((l2, en), s, h)"
    using ex_energy_error_returns by auto
  show ?thesis
    using energy_error_nonneg[OF r W A] W A r by simp
qed

theorem energy_error_idempotent_witness:
  "energy_error ex_energy ex_store \<noteq> None \<and>
   (\<exists>errors e1 h1 e2 h2. energy_error ex_energy ex_store = Some (errors, e1, h1) \<and>
       energy_error e1 h1 = Some (errors, e2, h2))"
proof -
  obtain errors e1 h1 where r: "energy_error ex_energy ex_store = Some (errors, e1, h1)"
    using ex_energy_error_returns by auto
  show ?thesis
    using energy_error_idempotent[OF r] r by auto
qed

theorem evaluate_nonpositive_witness:
  "evaluate ex_energy ex_store ex_param \<noteq> None \<and>
   entry (fst (the (evaluate ex_energy ex_store ex_param))) 0 0 \<le> 0 \<and>
   entry (fst (the (evaluate ex_energy ex_store ex_param))) 1 0 \<le> 0"
proof -
  obtain ev e1 h1 where r: "evaluate ex_energy ex_store ex_param = Some (ev, e1, h1)"
    using ex_evaluate_returns by auto
  show ?thesis
    using evaluate_nonpositive[OF r] r by auto
qed

theorem get_energy_items_effect_witness:
  "get_energy_items ex_energy ex_store zero_fn \<noteq> None \<and>
   (\<exists>v g s e h. get_energy_items ex_energy ex_store zero_fn = Some ((v, g, s), e, h) \<and>
      \<not> requires_grad v \<and> \<not> requires_grad g \<and> \<not> requires_grad s \<and>
      quadpts e = 1 \<and> length h = 2 \<and> data (h ! 1) = ex_points \<and>
      \<not> requires_grad (h ! 1) \<and> requires_grad (h ! 0))"
proof -
  obtain v g s e h where
    r: "get_energy_items ex_energy ex_store zero_fn = Some ((v, g, s), e, h)"
    using ex_items_returns by auto
  have q: "quadpts ex_energy = 0" "length ex_store = 1" "data (ex_store ! 0) = ex_points"
    by (simp_all add: ex_energy_eq ex_store_def)
  show ?thesis
    using get_energy_items_effect[OF r] r q by auto
qed

text \<open>
  Claim C8 as it stands has the call switch differentiation on for a fresh copy and leave
  the shared quadrature points alone. In the instance the tensor object of the quadrature
  provider, which the energy functional holds at its first call, has differentiation off
  before the call and on after it.
\<close>

theorem shared_quadpts_flag_counterexample:
  "get_energy_items ex_energy ex_store zero_fn \<noteq> None \<and>
   quadpts ex_energy = quad_pts ex_quadrature \<and>
   \<not> requires_grad (ex_store ! quad_pts ex_quadrature) \<and>
   requires_grad (snd (snd (the (get_energy_items ex_energy ex_store zero_fn)))
                    ! quad_pts ex_quadrature) \<and>
   snd (snd (the (get_energy_items ex_energy ex_store zero_fn))) ! quad_pts ex_quadrature
     \<noteq> ex_store ! quad_pts ex_quadrature"
  by (simp add: get_energy_items_eq ex_energy_eq ex_store_def zero_fn_def ex_quadrature_def
      store_after_def)



lemma cramer_first:
  fixes a b c d p q D :: real
  assumes "D \<noteq> 0" and "D = a * d - b * c"
  shows "a * ((d * p - b * q) / D) + b * ((a * q - c * p) / D) = p"
proof -
  have "a * ((d * p - b * q) / D) + b * ((a * q - c * p) / D)
      = (a * (d * p - b * q) + b * (a * q - c * p)) / D"
    by (simp add: add_divide_distrib)
  also have "a * (d * p - b * q) + b * (a * q - c * p) = D * p"
    by (simp add: assms(2) algebra_simps)
  finally show ?thesis
    using assms(1) by simp
qed

lemma cramer_second:
  fixes a b c d p q D :: real
  assumes "D \<noteq> 0" and "D = a * d - b * c"
  shows "c * ((d * p - b * q) / D) + d * ((a * q - c * p) / D) = q"
proof -
  have "c * ((d * p - b * q) / D) + d * ((a * q - c * p) / D)
      = (c * (d * p - b * q) + d * (a * q - c * p)) / D"
    by (simp add: add_divide_distrib)
  also have "c * (d * p - b * q) + d * (a * q - c * p) = D * q"
    by (simp add: assms(2) algebra_simps)
  finally show ?thesis
    using assms(1) by simp
qed

lemma ex_solve_contract: "solver_contract ex_solve"
  unfolding solver_contract_def solves_def
proof (intro allI impI)
  fix A B X
  assume a: "ex_solve A B = Some X"
  show "nrows X = nrows B \<and> ncols X = ncols B \<and>
        (\<forall>i<nrows B. \<forall>j<ncols B. (\<Sum>n<ncols A. entry A i n * entry X n j) = entry B i j)"
  proof (cases "nrows A = 1 \<and> ncols A = 1 \<and> nrows B = 1 \<and> entry A 0 0 \<noteq> 0")
    case True
    with a have X: "X = \<lparr>nrows = 1, ncols = ncols B,
        entry = (\<lambda>i j. entry B 0 j / entry A 0 0)\<rparr>"
      by (simp add: ex_solve_def)
    show ?thesis
      using True by (simp add: X)
  next
    case False
    let ?d = "entry A 0 0 * entry A 1 1 - entry A 0 1 * entry A 1 0"
    from a False have two: "nrows A = 2" "ncols A = 2" "nrows B = 2" "?d \<noteq> 0"
      and X: "X = \<lparr>nrows = 2, ncols = ncols B,
                 entry = (\<lambda>i j. if i = 0
                    then (entry A 1 1 * entry B 0 j - entry A 0 1 * entry B 1 j) / ?d
                    else (entry A 0 0 * entry B 1 j - entry A 1 0 * entry B 0 j) / ?d)\<rparr>"
      by (auto simp: ex_solve_def split: if_splits)
    have "(\<Sum>n<ncols A. entry A i n * entry X n j) = entry B i j" if "i < nrows B" for i j
    proof -
      have i: "i = 0 \<or> i = 1"
        using that two(3) by auto
      have s: "(\<Sum>n<ncols A. entry A i n * entry X n j)
          = entry A i 0 * entry X 0 j + entry A i 1 * entry X 1 j"
        by (simp add: two(2) eval_nat_numeral)
      have x0: "entry X 0 j = (entry A 1 1 * entry B 0 j - entry A 0 1 * entry B 1 j) / ?d"
        and x1: "entry X 1 j = (entry A 0 0 * entry B 1 j - entry A 1 0 * entry B 0 j) / ?d"
        by (simp_all add: X)
      from i show ?thesis
      proof
        assume "i = 0"
        then show ?thesis
          unfolding s x0 x1 using cramer_first[OF two(4) refl] by simp
      next
        assume "i = 1"
        then show ?thesis
          unfolding s x0 x1 using cramer_second[OF two(4) refl] by simp
      qed
    qed
    then show ?thesis
      by (simp add: X two)
  qed
qed

lemmas run_defs = oga_after_def oga_start_def oga_iteration_def select_and_assemble_def
  project_and_update_def galerkin_projection_def update_neurons_def update_solution_def
  forward_def t_fill_row_def t_set_def t_set_row_def t_set_cols_def fits_def t_reshape_row_def
  t_flatten_def ex_solve_def ex_dictionary_def ex_network_def ex_activation_def
  get_stiffmat_and_rhs_def energy_error_def energy_norm_def get_energy_items_eq get_error_def
  ex_energy_eq ex_store_def ex_pde_def zero_fn_def repeats_def bcount_def ex_points_def tensor_defs
  store_after_def Let_def

lemma ex_after_1: "oga_after ex_solve ex_dictionary ex_energy ex_store ex_network 1 \<noteq> None"
  by (simp add: run_defs)

lemma ex_after_0:
  "oga_after ex_solve ex_dictionary ex_energy ex_store ex_network 0
     = Some (oga_start ex_dictionary ex_energy ex_store ex_network)"
  by (simp add: oga_after_def ex_energy_eq ex_store_def)

lemma ex_constants:
  "geo_dim ex_dictionary = 1" "nrows (data (ex_store ! quadpts ex_energy)) = 2"
  "ncols (data (ex_store ! quadpts ex_energy)) = 1" "num_neurons ex_network = 2"
  "nrows (weights ex_energy) = 2" "ncols (weights ex_energy) = 1"
  "nrows (source_data ex_energy) = 2" "pde ex_energy = ex_pde"
  "forward_pass ex_network = ex_forward"
  "data (ex_store ! quadpts ex_energy) = ex_points" "nrows ex_points = 2" "ncols ex_points = 1"
  by (simp_all add: ex_dictionary_def ex_energy_eq ex_store_def ex_points_def ex_network_def
      t_of_rows_def t_map_def)

lemma ex_jets:
  "jets_at (solution ex_pde) ex_points" "jets_at (ex_forward ps) ex_points"
  by (simp_all add: jets_at_def ex_pde_def ex_forward_def ex_points_def t_map_def t_of_rows_def
      split: prod.splits)

text \<open>The first half of the second iteration returns.\<close>

lemma ex_second_assembly:
  assumes s2: "oga_after ex_solve ex_dictionary ex_energy ex_store ex_network 1 = Some s2"
  shows "\<exists>t2 G2 b2. select_and_assemble ex_dictionary 1 2 1 s2 = Some (t2, G2, b2)"
proof (rule select_and_assemble_returns)
  note sh = oga_after_shapes[OF s2, unfolded ex_constants]
  note pt = oga_after_points[OF s2, unfolded ex_constants]
  note nw = oga_after_network[OF s2, unfolded ex_constants]
  have sd: "weights (energy_obj s2) = weights ex_energy"
    "source_data (energy_obj s2) = source_data ex_energy" "pde (energy_obj s2) = ex_pde"
    using sh(9) by (simp_all add: same_discretisation_def ex_constants)
  show "quadpts (energy_obj s2) < length (store s2)" by (rule pt)
  show "nrows (data (store s2 ! quadpts (energy_obj s2))) = 2"
    "ncols (data (store s2 ! quadpts (energy_obj s2))) = 1"
    by (simp_all add: pt ex_points_def t_of_rows_def)
  show "jets_at (solution (pde (energy_obj s2))) (data (store s2 ! quadpts (energy_obj s2)))"
    by (simp add: sd pt ex_jets)
  have "pre_solution (energy_obj s2) = forward (snn s2)"
    using oga_after_tracked[OF s2] by simp
  then show "jets_at (pre_solution (energy_obj s2)) (data (store s2 ! quadpts (energy_obj s2)))"
    by (simp add: forward_def nw pt ex_jets)
  show "nrows (weights (energy_obj s2)) = 2" "ncols (weights (energy_obj s2)) = 1"
    "nrows (source_data (energy_obj s2)) = 2"
    by (simp_all add: sd ex_constants)
  show "1 < nrows (errl2_record s2)" "1 < nrows (errh1_record s2)" "1 < nrows (inner_param s2)"
    "ncols (inner_param s2) = 1 + 1" "nrows (core_mat s2) = nrows (inner_param s2)"
    "ncols (core_mat s2) = 2"
    by (simp_all add: sh)
  show "find_optimal_element ex_dictionary ((energy_obj s2)\<lparr>quadpts := length (store s2)\<rparr>)
          (store_after (store s2) (quadpts (energy_obj s2)))
        = Some [1, real (length (store_after (store s2) (quadpts (energy_obj s2)))) - 2]"
    by (simp add: ex_dictionary_def)
  show "1 < length [1, real (length (store_after (store s2) (quadpts (energy_obj s2)))) - 2]"
    by simp
qed

theorem stiffness_leading_submatrix_witness:
  "ncols (weights ex_energy) = 1 \<and>
   (\<exists>s1 t1 G1 b1 s2 t2 G2 b2.
      oga_after ex_solve ex_dictionary ex_energy ex_store ex_network 0 = Some s1 \<and>
      select_and_assemble ex_dictionary 1 2 0 s1 = Some (t1, G1, b1) \<and>
      oga_after ex_solve ex_dictionary ex_energy ex_store ex_network 1 = Some s2 \<and>
      select_and_assemble ex_dictionary 1 2 1 s2 = Some (t2, G2, b2) \<and>
      nrows G1 = 1 \<and> ncols G1 = 1 \<and> nrows G2 = 2 \<and> ncols G2 = 2 \<and>
      entry G2 0 0 = entry G1 0 0)"
proof -
  let ?s1 = "oga_start ex_dictionary ex_energy ex_store ex_network"
  obtain s2 where s2: "oga_after ex_solve ex_dictionary ex_energy ex_store ex_network 1 = Some s2"
    using ex_after_1 by auto
  then have "oga_iteration ex_solve ex_dictionary 1 2 0 ?s1 = Some s2"
    by (simp add: oga_after_Suc[of _ _ _ _ _ 0, simplified] ex_after_0 ex_constants)
  then obtain t1 G1 b1 where a1: "select_and_assemble ex_dictionary 1 2 0 ?s1 = Some (t1, G1, b1)"
    by (auto simp: oga_iteration_def bind_eq_Some_conv)
  obtain t2 G2 b2 where a2: "select_and_assemble ex_dictionary 1 2 1 s2 = Some (t2, G2, b2)"
    using ex_second_assembly[OF s2] by blast
  have c: "ncols (weights ex_energy) = 1"
    by (rule ex_constants)
  have "nrows G1 = 0 + 1 \<and> ncols G1 = 0 + 1 \<and> nrows G2 = 1 + 1 \<and> ncols G2 = 1 + 1 \<and>
         (\<forall>i\<le>0. \<forall>j\<le>0. entry G2 i j = entry G1 i j) \<and>
         rows_kept (0 + 1) (core_mat t1) (core_mat t2)"
  proof (rule stiffness_leading_submatrix[OF ex_after_0 _ s2 _ _ c])
    show "select_and_assemble ex_dictionary (geo_dim ex_dictionary)
            (nrows (data (ex_store ! quadpts ex_energy))) 0 ?s1 = Some (t1, G1, b1)"
      using a1 by (simp add: ex_constants)
    show "select_and_assemble ex_dictionary (geo_dim ex_dictionary)
            (nrows (data (ex_store ! quadpts ex_energy))) 1 s2 = Some (t2, G2, b2)"
      using a2 by (simp add: ex_constants)
    show "(0::nat) < 1" by simp
  qed
  then show ?thesis
    using c ex_after_0 a1 s2 a2 by auto
qed

text \<open>
  The run of the small instance: the dictionary returns \<open>(1, 0)\<close> at the first iteration and
  \<open>(1, 1)\<close> at the second. The first system is \<open>5/2 c = 1/2\<close>; the second has the matrix
  \<open>((5/2, 4), (4, 25/2))\<close> and the right-hand side \<open>(1/2, 5/2)\<close>.
\<close>

lemma ex_selection:
  assumes si: "oga_after ex_solve ex_dictionary ex_energy ex_store ex_network i = Some si"
    and e: "energy_error (energy_obj si) (store si) = Some (errors, ei, hi)"
  shows "find_optimal_element ex_dictionary ei hi = Some [1, real i]"
proof -
  have "length (store si) = 1 + i"
    using oga_after_store_length[OF si] by (simp add: ex_store_def)
  then have "length hi = i + 2"
    using energy_error_store_length[OF e] by simp
  then show ?thesis
    by (simp add: ex_dictionary_def)
qed

lemma ex_shapes:
  "nrows (weights ex_energy) = nrows (data (ex_store ! quadpts ex_energy))"
  "ncols (weights ex_energy) = 1"
  "nrows (source_data ex_energy) = nrows (data (ex_store ! quadpts ex_energy))"
  "ncols (source_data ex_energy) = 1"
  by (simp_all add: ex_energy_eq ex_store_def ex_points_def t_of_rows_def t_map_def)

lemma ex_parameters_run:
  assumes s: "oga_after ex_solve ex_dictionary ex_energy ex_store ex_network k = Some s"
    and a: "select_and_assemble ex_dictionary (geo_dim ex_dictionary)
              (nrows (data (ex_store ! quadpts ex_energy))) k s = Some (s1, G, b)"
    and i: "i \<le> k"
  shows "entry (inner_param s1) i 0 = 1" and "entry (inner_param s1) i 1 = real i"
proof -
  from assembled_system(1)[OF s a ex_shapes i] obtain si errors ei hi opt where
    si: "oga_after ex_solve ex_dictionary ex_energy ex_store ex_network i = Some si"
    and e: "energy_error (energy_obj si) (store si) = Some (errors, ei, hi)"
    and f: "find_optimal_element ex_dictionary ei hi = Some opt"
    and w: "\<forall>d\<le>geo_dim ex_dictionary. entry (inner_param s1) i d = opt ! d"
    by blast
  from f ex_selection[OF si e] have opt: "opt = [1, real i]"
    by simp
  from w show "entry (inner_param s1) i 0 = 1" and "entry (inner_param s1) i 1 = real i"
    by (simp_all add: opt ex_constants)
qed

lemma ex_forms_first:
  assumes "entry P 0 0 = 1" and "entry P 0 1 = 0"
  shows "stiffness_form ex_energy 1 P ex_points 0 0 = 5 / 2"
    and "load_form ex_energy 1 P ex_points 0 = 1 / 2"
proof -
  have two: "{..<2::nat} = {0, 1}" by auto
  note P = assms assms[unfolded One_nat_def]
  show "stiffness_form ex_energy 1 P ex_points 0 0 = 5 / 2"
    by (simp add: stiffness_form_def preactivation_def ex_energy_eq ex_activation_def
        ex_points_def t_of_rows_def t_map_def two P)
  show "load_form ex_energy 1 P ex_points 0 = 1 / 2"
    by (simp add: load_form_def preactivation_def ex_energy_eq ex_activation_def
        ex_points_def t_of_rows_def t_map_def two P)
qed

lemma ex_forms_second:
  assumes "entry P 0 0 = 1" and "entry P 0 1 = 0" and "entry P 1 0 = 1" and "entry P 1 1 = 1"
  shows "stiffness_form ex_energy 1 P ex_points 0 1 = 4"
    and "stiffness_form ex_energy 1 P ex_points 1 0 = 4"
    and "stiffness_form ex_energy 1 P ex_points 1 1 = 25 / 2"
    and "load_form ex_energy 1 P ex_points 1 = 5 / 2"
proof -
  have two: "{..<2::nat} = {0, 1}" by auto
  note P = assms assms[unfolded One_nat_def]
  show "stiffness_form ex_energy 1 P ex_points 0 1 = 4"
    by (simp add: stiffness_form_def preactivation_def ex_energy_eq ex_activation_def
        ex_points_def t_of_rows_def t_map_def two P)
  show "stiffness_form ex_energy 1 P ex_points 1 0 = 4"
    by (simp add: stiffness_form_def preactivation_def ex_energy_eq ex_activation_def
        ex_points_def t_of_rows_def t_map_def two P)
  show "stiffness_form ex_energy 1 P ex_points 1 1 = 25 / 2"
    by (simp add: stiffness_form_def preactivation_def ex_energy_eq ex_activation_def
        ex_points_def t_of_rows_def t_map_def two P)
  show "load_form ex_energy 1 P ex_points 1 = 5 / 2"
    by (simp add: load_form_def preactivation_def ex_energy_eq ex_activation_def
        ex_points_def t_of_rows_def t_map_def two P)
qed

lemma ex_second_system:
  assumes s: "oga_after ex_solve ex_dictionary ex_energy ex_store ex_network 1 = Some s"
    and a: "select_and_assemble ex_dictionary (geo_dim ex_dictionary)
              (nrows (data (ex_store ! quadpts ex_energy))) 1 s = Some (s1, G, b)"
  shows "nrows G = 2" and "ncols G = 2" and "nrows b = 2" and "ncols b = 1"
    and "entry G 0 0 = 5 / 2" and "entry G 0 1 = 4" and "entry G 1 0 = 4"
    and "entry G 1 1 = 25 / 2" and "entry b 0 0 = 1 / 2" and "entry b 1 0 = 5 / 2"
proof -
  note y = assembled_system[OF s a ex_shapes, unfolded ex_constants]
  have P: "entry (inner_param s1) 0 0 = 1" "entry (inner_param s1) 0 1 = 0"
    "entry (inner_param s1) 1 0 = 1" "entry (inner_param s1) 1 1 = 1"
    using ex_parameters_run[OF s a, of 0] ex_parameters_run[OF s a, of 1] by simp_all
  show "nrows G = 2" and "ncols G = 2" and "nrows b = 2" and "ncols b = 1"
    using y(3-6) by simp_all
  show "entry G 0 0 = 5 / 2" and "entry b 0 0 = 1 / 2"
    using y(7)[of 0 0] y(8)[of 0] ex_forms_first[OF P(1,2)] by simp_all
  show "entry G 0 1 = 4" and "entry G 1 0 = 4" and "entry G 1 1 = 25 / 2"
    and "entry b 1 0 = 5 / 2"
    using y(7)[of 0 1] y(7)[of 1 0] y(7)[of 1 1] y(8)[of 1] ex_forms_second[OF P] by simp_all
qed

lemma ex_after_2:
  assumes s: "oga_after ex_solve ex_dictionary ex_energy ex_store ex_network 1 = Some s"
    and a: "select_and_assemble ex_dictionary (geo_dim ex_dictionary)
              (nrows (data (ex_store ! quadpts ex_energy))) 1 s = Some (s1, G, b)"
  shows "\<exists>s2. oga_after ex_solve ex_dictionary ex_energy ex_store ex_network 2 = Some s2"
proof -
  note y = ex_second_system[OF s a]
  have "\<exists>coef. ex_solve G b = Some coef \<and> nrows coef = 2 \<and> ncols coef = 1"
    by (simp add: ex_solve_def y y[unfolded One_nat_def])
  then obtain coef where c: "ex_solve G b = Some coef" "nrows coef = 1 + 1" "ncols coef = 1"
    by auto
  from a have "outer_param s1 = outer_param s"
    by (rule select_and_assemble_SomeD)
  then have o: "nrows (outer_param s1) = 1" "1 < ncols (outer_param s1)"
    using oga_after_shapes(7,8)[OF s] by (simp_all add: ex_constants)
  from project_and_update_returns[of ex_solve G b coef 1 s1 "geo_dim ex_dictionary", OF c o]
  obtain s2 where
    p: "project_and_update ex_solve (geo_dim ex_dictionary) 1 (s1, G, b) = Some s2"
    by blast
  have "oga_after ex_solve ex_dictionary ex_energy ex_store ex_network (Suc 1) = Some s2"
    unfolding oga_after_Suc using s a p by (simp add: oga_iteration_def)
  then show ?thesis
    by (simp add: numeral_2_eq_2)
qed

theorem coefficients_recomputed_witness:
  "solver_contract ex_solve \<and>
   nrows (weights ex_energy) = nrows (data (ex_store ! quadpts ex_energy)) \<and>
   ncols (weights ex_energy) = 1 \<and>
   nrows (source_data ex_energy) = nrows (data (ex_store ! quadpts ex_energy)) \<and>
   ncols (source_data ex_energy) = 1 \<and>
   (\<exists>s s1 Gk bk s2 coef.
      oga_after ex_solve ex_dictionary ex_energy ex_store ex_network 1 = Some s \<and>
      select_and_assemble ex_dictionary (geo_dim ex_dictionary)
        (nrows (data (ex_store ! quadpts ex_energy))) 1 s = Some (s1, Gk, bk) \<and>
      oga_after ex_solve ex_dictionary ex_energy ex_store ex_network 2 = Some s2 \<and>
      entry (outer_param s) 0 0 = 1 / 5 \<and>
      entry (inner_param s1) 0 0 = 1 \<and> entry (inner_param s1) 0 1 = 0 \<and>
      entry (inner_param s1) 1 0 = 1 \<and> entry (inner_param s1) 1 1 = 1 \<and>
      entry (core_mat s1) 0 0 = 0 \<and> entry (core_mat s1) 0 1 = 1 \<and>
      entry (core_mat s1) 1 0 = 1 \<and> entry (core_mat s1) 1 1 = 2 \<and>
      nrows Gk = 2 \<and> ncols Gk = 2 \<and> nrows bk = 2 \<and> ncols bk = 1 \<and>
      entry Gk 0 0 = 5 / 2 \<and> entry Gk 0 1 = 4 \<and> entry Gk 1 0 = 4 \<and> entry Gk 1 1 = 25 / 2 \<and>
      entry bk 0 0 = 1 / 2 \<and> entry bk 1 0 = 5 / 2 \<and>
      galerkin_projection ex_solve (Gk, bk) = Some coef \<and>
      nrows coef = 2 \<and> ncols coef = 1 \<and> solves Gk coef bk \<and>
      entry coef 0 0 = - 15 / 61 \<and> entry coef 1 0 = 17 / 61 \<and>
      entry (outer_param s2) 0 0 = - 15 / 61 \<and> entry (outer_param s2) 0 1 = 17 / 61)"
proof -
  let ?s0 = "oga_start ex_dictionary ex_energy ex_store ex_network"
  let ?g = "geo_dim ex_dictionary"
  let ?N = "nrows (data (ex_store ! quadpts ex_energy))"
  have two: "{..<2::nat} = {0, 1}" by auto
  obtain s where s: "oga_after ex_solve ex_dictionary ex_energy ex_store ex_network 1 = Some s"
    using ex_after_1 by auto
  then have s': "oga_after ex_solve ex_dictionary ex_energy ex_store ex_network (Suc 0) = Some s"
    by simp
  then have "oga_iteration ex_solve ex_dictionary ?g ?N 0 ?s0 = Some s"
    by (simp add: oga_after_Suc ex_after_0)
  then obtain t1 G1 b1 where a0: "select_and_assemble ex_dictionary ?g ?N 0 ?s0 = Some (t1, G1, b1)"
    by (auto simp: oga_iteration_def bind_eq_Some_conv)
  from coefficients_recomputed[OF ex_solve_contract ex_after_0 a0 s' ex_shapes]
  obtain coef1 where
    g1: "ncols G1 = 1" "nrows b1 = 1" "ncols b1 = 1"
      "entry G1 0 0 = stiffness_form ex_energy ?g (inner_param t1) (data (ex_store ! quadpts ex_energy)) 0 0"
      "entry b1 0 0 = load_form ex_energy ?g (inner_param t1) (data (ex_store ! quadpts ex_energy)) 0"
    and c1: "solves G1 coef1 b1" "entry (outer_param s) 0 0 = entry coef1 0 0"
    by auto
  have P1: "entry (inner_param t1) 0 0 = 1" "entry (inner_param t1) 0 1 = 0"
    using ex_parameters_run[OF ex_after_0 a0, of 0] by simp_all
  have v1: "entry G1 0 0 = 5 / 2" "entry b1 0 0 = 1 / 2"
    using g1(4,5) ex_forms_first[OF P1] by (simp_all add: ex_constants)
  from c1(1) have "entry G1 0 0 * entry coef1 0 0 = entry b1 0 0"
    by (simp add: solves_def g1)
  then have first: "entry (outer_param s) 0 0 = 1 / 5"
    by (simp add: v1 c1(2))
  obtain s1 Gk bk where a: "select_and_assemble ex_dictionary 1 2 1 s = Some (s1, Gk, bk)"
    using ex_second_assembly[OF s] by blast
  then have a': "select_and_assemble ex_dictionary ?g ?N 1 s = Some (s1, Gk, bk)"
    by (simp add: ex_constants)
  obtain s2 where s2: "oga_after ex_solve ex_dictionary ex_energy ex_store ex_network 2 = Some s2"
    using ex_after_2[OF s a'] by blast
  then have s2': "oga_after ex_solve ex_dictionary ex_energy ex_store ex_network (Suc 1) = Some s2"
    by (simp add: numeral_2_eq_2)
  note r = coefficients_recomputed[OF ex_solve_contract s a' s2' ex_shapes, unfolded ex_constants]
  have P: "entry (inner_param s1) 0 0 = 1" "entry (inner_param s1) 0 1 = 0"
    "entry (inner_param s1) 1 0 = 1" "entry (inner_param s1) 1 1 = 1"
    using ex_parameters_run[OF s a', of 0] ex_parameters_run[OF s a', of 1] by simp_all
  note P' = P P[unfolded One_nat_def]
  from r have core: "\<forall>i\<le>1. \<forall>n<2. entry (core_mat s1) i n
      = preactivation 1 (inner_param s1) ex_points i n"
    by simp
  have C: "entry (core_mat s1) 0 0 = 0" "entry (core_mat s1) 0 1 = 1"
    "entry (core_mat s1) 1 0 = 1" "entry (core_mat s1) 1 1 = 2"
    using core by (simp_all add: preactivation_def P' ex_points_def t_of_rows_def)
  from r have shape: "nrows Gk = 2" "ncols Gk = 2" "nrows bk = 2" "ncols bk = 1"
    by simp_all
  from r have G: "\<forall>i\<le>1. \<forall>j\<le>1. entry Gk i j = stiffness_form ex_energy 1 (inner_param s1) ex_points i j"
    and b: "\<forall>i\<le>1. entry bk i 0 = load_form ex_energy 1 (inner_param s1) ex_points i"
    by simp_all
  have v: "entry Gk 0 0 = 5 / 2" "entry Gk 0 1 = 4" "entry Gk 1 0 = 4" "entry Gk 1 1 = 25 / 2"
    "entry bk 0 0 = 1 / 2" "entry bk 1 0 = 5 / 2"
    using G b ex_forms_first[OF P(1,2)] ex_forms_second[OF P] by simp_all
  from r obtain coef where
    c: "galerkin_projection ex_solve (Gk, bk) = Some coef" "nrows coef = 2" "ncols coef = 1"
      "solves Gk coef bk"
    and o: "\<forall>j\<le>1. entry (outer_param s2) 0 j = entry coef j 0"
    by auto
  have e: "entry Gk 0 0 * entry coef 0 0 + entry Gk 0 1 * entry coef 1 0 = entry bk 0 0"
    "entry Gk 1 0 * entry coef 0 0 + entry Gk 1 1 * entry coef 1 0 = entry bk 1 0"
    using c(4)[unfolded solves_def shape, rule_format, of 0 0]
      c(4)[unfolded solves_def shape, rule_format, of 1 0]
    by (simp_all add: two)
  have eq: "5 / 2 * entry coef 0 0 + 4 * entry coef 1 0 = 1 / 2"
    "4 * entry coef 0 0 + 25 / 2 * entry coef 1 0 = 5 / 2"
    using e[unfolded v] .
  have cv: "entry coef 0 0 = - 15 / 61" "entry coef 1 0 = 17 / 61"
    using eq by linarith+
  have ov: "entry (outer_param s2) 0 0 = - 15 / 61" "entry (outer_param s2) 0 1 = 17 / 61"
    using o cv by simp_all
  show ?thesis
    using ex_solve_contract ex_shapes s a' s2 first P C shape v c cv ov by blast
qed

theorem update_solution_not_retroactive_witness:
  "\<exists>s' s errors e1 h1.
      oga_after ex_solve ex_dictionary ex_energy ex_store ex_network 1 = Some s' \<and>
      oga_after ex_solve ex_dictionary ex_energy ex_store ex_network 0 = Some s \<and>
      energy_error (energy_obj s) (store s) = Some (errors, e1, h1) \<and>
      entry (errl2_record s') 0 0 = sqrt (fst errors) \<and>
      entry (errh1_record s') 0 0 = sqrt (snd errors) \<and>
      pre_solution (energy_obj s') = forward (snn s')"
proof -
  obtain s' where s': "oga_after ex_solve ex_dictionary ex_energy ex_store ex_network 1 = Some s'"
    using ex_after_1 by auto
  have j: "(0::nat) < 1" by simp
  note t = update_solution_not_retroactive[OF s' j, of ex_energy zero_fn]
  then obtain s errors e1 h1 where
    "oga_after ex_solve ex_dictionary ex_energy ex_store ex_network 0 = Some s"
    "energy_error (energy_obj s) (store s) = Some (errors, e1, h1)"
    "\<forall>c. entry (errl2_record s') 0 c = sqrt (fst errors) \<and>
         entry (errh1_record s') 0 c = sqrt (snd errors)"
    by blast
  moreover from t have "pre_solution (energy_obj s') = forward (snn s')"
    by blast
  ultimately show ?thesis
    using s' by blast
qed

lemma ex_residual_value:
  "\<exists>r e1 h1. evaluate_residual ex_energy ex_store ex_param = Some (r, e1, h1) \<and>
     entry r 0 0 = - (1 / 2) \<and> entry r 1 0 = - (5 / 2) \<and> area e1 = 1"
  by (simp add: evaluate_residual_def get_energy_items_eq ex_energy_eq ex_store_def ex_param_def
      zero_fn_def ex_points_def tensor_defs store_after_def Let_def ex_activation_def
      eval_nat_numeral)

text \<open>
  Claim C5 as it stands has the maximum of the score at the candidate of greatest energy
  reduction, the reduction being the squared residual of which the score is the negative.
  In the instance, with the tracked solution still zero, the candidate \<open>(w, b) = (1, 0)\<close> has
  the residual \<open>-1/2\<close> and the candidate \<open>(1, 1)\<close> the residual \<open>-5/2\<close>: the first has the
  greater score and the smaller squared residual.
\<close>

theorem score_order_counterexample:
  "evaluate ex_energy ex_store ex_param \<noteq> None \<and>
   entry (fst (the (evaluate ex_energy ex_store ex_param))) 1 0
     < entry (fst (the (evaluate ex_energy ex_store ex_param))) 0 0 \<and>
   (entry (fst (the (evaluate_residual ex_energy ex_store ex_param))) 0 0 * area ex_energy) ^ 2
     < (entry (fst (the (evaluate_residual ex_energy ex_store ex_param))) 1 0 * area ex_energy) ^ 2"
proof -
  obtain r e1 h1 where r: "evaluate_residual ex_energy ex_store ex_param = Some (r, e1, h1)"
    and v: "entry r 0 0 = - (1 / 2)" "entry r 1 0 = - (5 / 2)" "area e1 = 1"
    using ex_residual_value by blast
  have a: "area ex_energy = 1"
    by (simp add: ex_energy_eq)
  note v1 = v(2)[unfolded One_nat_def]
  show ?thesis
    by (simp add: evaluate_def r v v1 a Let_def t_map_def t_pow2_def t_scale_def
        power2_eq_square)
qed

theorem initial_energy_error_witness:
  "init ex_activation ex_quadrature ex_pde ''cpu'' False ex_store = Some ex_energy \<and>
   quadpts ex_energy < length ex_store \<and>
   solution ex_pde (data (ex_store ! quadpts ex_energy))
     = Some (t_map (\<lambda>x. x ^ 2) ex_points, t_map (\<lambda>x. 2 * x) ex_points,
             t_map (\<lambda>x. 2) ex_points, 2) \<and>
   nrows (data (ex_store ! quadpts ex_energy)) = 2 \<and>
   ncols (data (ex_store ! quadpts ex_energy)) = 1 \<and>
   nrows (weights ex_energy) = 2 \<and> ncols (weights ex_energy) = 1 \<and>
   pre_solution ex_energy = zero_fn \<and>
   energy_error ex_energy ex_store
     = Some ((1 / 2, 13 / 2), ex_energy\<lparr>quadpts := 1\<rparr>, store_after ex_store 0)"
proof -
  let ?p = "data (ex_store ! quadpts ex_energy)"
  have q: "quadpts ex_energy < length ex_store"
    by (simp add: ex_energy_eq ex_store_def)
  have p: "?p = ex_points"
    by (simp add: ex_energy_eq ex_store_def)
  have sol: "solution ex_pde ?p
      = Some (t_map (\<lambda>x. x ^ 2) ex_points, t_map (\<lambda>x. 2 * x) ex_points,
              t_map (\<lambda>x. 2) ex_points, 2)"
    by (simp add: p ex_pde_def)
  have W: "nrows (weights ex_energy) = 2" "ncols (weights ex_energy) = 1"
    by (simp_all add: ex_energy_eq t_of_rows_def)
  have P: "nrows ?p = 2" "ncols ?p = 1"
    by (simp_all add: p ex_points_def t_of_rows_def)
  have S: "nrows (t_map f ex_points) = 2" "ncols (t_map f ex_points) = 1" for f
    by (simp_all add: t_map_def ex_points_def t_of_rows_def)
  have two: "{..<2::nat} = {0, 1}" by auto
  show ?thesis
    using initial_energy_error[OF ex_init q sol P S S S W] q ex_init sol P W
    by (simp add: two ex_energy_eq ex_store_def t_map_def ex_points_def t_of_rows_def)
qed

text \<open>
  For the exact solution \<open>u(x) = x\<close> the first call of \<open>energy_error()\<close> returns the two
  squared norms, 1/2 and 3/2, while \<open>_energy_norm\<close> of the exact solution alone does not
  return: its gradient is not in the graph, and the second differentiation raises.
\<close>

lemma ex_linear_energy_eq:
  "ex_linear_energy = \<lparr>sigma = activate ex_activation, dsigma = dactivate ex_activation,
      quadpts = 0, weights = t_of_rows [[1 / 2], [1 / 2]], area = 1,
      source_data = ex_points, pde = ex_linear_pde,
      device = ''cpu'', pre_solution = zero_fn, parallel_evaluation = False\<rparr>"
  by (simp add: ex_linear_energy_def init_def ex_quadrature_def ex_store_def ex_linear_pde_def)

lemma linear_solution_energy_error:
  "energy_error ex_linear_energy ex_store
     = Some ((1 / 2, 3 / 2), ex_linear_energy\<lparr>quadpts := 1\<rparr>, store_after ex_store 0) \<and>
   energy_norm ex_linear_energy ex_store (solution (pde ex_linear_energy)) = None"
  by (simp add: energy_error_def energy_norm_def get_energy_items_eq get_error_def
      ex_linear_energy_eq ex_linear_pde_def
      ex_store_def zero_fn_def repeats_def bcount_def ex_points_def tensor_defs store_after_def
      t_sum_def)

text \<open>
  A tracked solution that returns one value for all points, the sum of the points: the
  difference is taken with broadcasting, and the gradient of its sum has the gradient of the
  tracked solution once for every point.
\<close>

lemma broadcast_energy_error:
  "energy_error (update_solution ex_energy ex_total) ex_store
     = Some ((1 / 2, 13 / 2), (update_solution ex_energy ex_total)\<lparr>quadpts := 1\<rparr>,
             store_after ex_store 0)"
  by (simp add: energy_error_def energy_norm_def get_energy_items_eq get_error_def
      update_solution_def ex_total_def ex_energy_eq ex_pde_def
      ex_store_def repeats_def bcount_def ex_points_def tensor_defs store_after_def
      t_sum_def)

end
